theory Spec2Isabelle
  imports Complex_Main "HOL-Library.Sublist" "HOL-Library.AList" "HOL-Library.Multiset"
begin

section \<open>JavaScript values used by the viewer-data pipeline\<close>

text \<open>
  The sources are TypeScript. A JavaScript \<open>number\<close> is modelled as \<open>NaN\<close> or a finite
  rational; arithmetic on finite values is exact (the rounding of IEEE doubles and the
  infinities are outside the model). \<open>undefined\<close> read in an arithmetic position converts
  to \<open>NaN\<close>, as ToNumber does.
\<close>

datatype number = NaN | Fin rat

instantiation number :: comm_monoid_add
begin

definition zero_number :: number where
  "zero_number = Fin 0"

definition plus_number :: "number \<Rightarrow> number \<Rightarrow> number" where
  "plus_number a b = (case a of NaN \<Rightarrow> NaN | Fin x \<Rightarrow> (case b of NaN \<Rightarrow> NaN | Fin y \<Rightarrow> Fin (x + y)))"

instance
proof
  fix a b c :: number
  show "a + b + c = a + (b + c)"
    by (cases a; cases b; cases c) (simp_all add: plus_number_def)
  show "a + b = b + a"
    by (cases a; cases b) (simp_all add: plus_number_def)
  show "0 + a = a"
    by (cases a) (simp_all add: plus_number_def zero_number_def)
qed

end

definition nsub :: "number \<Rightarrow> number \<Rightarrow> number" where
  "nsub a b = (case a of NaN \<Rightarrow> NaN | Fin x \<Rightarrow> (case b of NaN \<Rightarrow> NaN | Fin y \<Rightarrow> Fin (x - y)))"

definition nmul :: "number \<Rightarrow> number \<Rightarrow> number" where
  "nmul a b = (case a of NaN \<Rightarrow> NaN | Fin x \<Rightarrow> (case b of NaN \<Rightarrow> NaN | Fin y \<Rightarrow> Fin (x * y)))"

text \<open>\<open>a / c\<close> for a finite non-zero constant \<open>c\<close> (the sources divide by 100 and by a
  positive array length only).\<close>

definition ndiv :: "number \<Rightarrow> rat \<Rightarrow> number" where
  "ndiv a c = (case a of NaN \<Rightarrow> NaN | Fin x \<Rightarrow> Fin (x / c))"

text \<open>\<open>a % c\<close> for a finite positive constant \<open>c\<close>: the remainder of the division
  truncated towards zero.\<close>

definition nmod :: "number \<Rightarrow> rat \<Rightarrow> number" where
  "nmod a c = (case a of NaN \<Rightarrow> NaN
     | Fin x \<Rightarrow> Fin (if 0 \<le> x then x - c * of_int \<lfloor>x / c\<rfloor> else x + c * of_int \<lfloor>- x / c\<rfloor>))"

definition gt :: "number \<Rightarrow> number \<Rightarrow> bool" where
  "gt a b = (case a of NaN \<Rightarrow> False | Fin x \<Rightarrow> (case b of NaN \<Rightarrow> False | Fin y \<Rightarrow> y < x))"

definition lt :: "number \<Rightarrow> number \<Rightarrow> bool" where
  "lt a b = gt b a"

definition ge :: "number \<Rightarrow> number \<Rightarrow> bool" where
  "ge a b = (case a of NaN \<Rightarrow> False | Fin x \<Rightarrow> (case b of NaN \<Rightarrow> False | Fin y \<Rightarrow> y \<le> x))"

definition strictEq :: "number \<Rightarrow> number \<Rightarrow> bool" where
  "strictEq a b = (case a of NaN \<Rightarrow> False | Fin x \<Rightarrow> (case b of NaN \<Rightarrow> False | Fin y \<Rightarrow> x = y))"

definition truthy :: "number \<Rightarrow> bool" where
  "truthy a = (case a of NaN \<Rightarrow> False | Fin x \<Rightarrow> x \<noteq> 0)"

definition mathMax :: "number \<Rightarrow> number \<Rightarrow> number" where
  "mathMax a b = (case a of NaN \<Rightarrow> NaN | Fin x \<Rightarrow> (case b of NaN \<Rightarrow> NaN | Fin y \<Rightarrow> Fin (max x y)))"

definition mathRound :: "number \<Rightarrow> number" where
  "mathRound a = (case a of NaN \<Rightarrow> NaN | Fin x \<Rightarrow> Fin (of_int \<lfloor>x + 1 / 2\<rfloor>))"

definition mathFloor :: "number \<Rightarrow> number" where
  "mathFloor a = (case a of NaN \<Rightarrow> NaN | Fin x \<Rightarrow> Fin (of_int \<lfloor>x\<rfloor>))"

text \<open>
  Built-ins of the JavaScript platform whose full behaviour is not part of this
  repository are parameters of the model, collected in one record. Every theorem below
  holds for all platforms; concrete runs use \<open>refPlatform\<close> (defined further down).
  \<^item> \<open>toNumber s\<close> is \<open>Number(s)\<close> for a string \<open>s\<close>;
  \<^item> \<open>numberToString n\<close> is \<open>n.toString()\<close>, also used by template literals;
  \<^item> \<open>localeCompare a b\<close> is \<open>a.localeCompare(b)\<close>;
  \<^item> \<open>dateTime y m d\<close> is \<open>new Date(y, m, d).getTime()\<close>;
  \<^item> \<open>dateFields ms\<close> is \<open>(getDate(), getMonth(), getFullYear())\<close> of \<open>new Date(ms)\<close>.
\<close>

record builtins =
  toNumber :: "string \<Rightarrow> number"
  numberToString :: "number \<Rightarrow> string"
  localeCompare :: "string \<Rightarrow> string \<Rightarrow> number"
  dateTime :: "number \<Rightarrow> number \<Rightarrow> number \<Rightarrow> number"
  dateFields :: "rat \<Rightarrow> number \<times> number \<times> number"

subsection \<open>Strings\<close>

definition isDigit :: "char \<Rightarrow> bool" where
  "isDigit c = (c \<in> set ''0123456789'')"

definition digitVal :: "char \<Rightarrow> nat" where
  "digitVal c = of_char c - 48"

text \<open>\<open>parseInt(s, 10)\<close> on a string of decimal digits (the only strings the sources
  pass are capture groups of \<open>\d\<close> patterns).\<close>

definition parseInt :: "string \<Rightarrow> nat" where
  "parseInt s = foldl (\<lambda>acc c. 10 * acc + digitVal c) 0 s"

text \<open>\<open>s.includes(sub)\<close>.\<close>

definition str_includes :: "string \<Rightarrow> string \<Rightarrow> bool" where
  "str_includes s sub = list_ex (prefix sub) (suffixes s)"

text \<open>\<open>s.padStart(2, '0')\<close>.\<close>

definition padStart2 :: "string \<Rightarrow> string" where
  "padStart2 s = replicate (2 - length s) (CHR ''0'') @ s"

text \<open>\<open>s.split(c)\<close> for a one-character separator: always at least one part.\<close>

fun splitAcc :: "char \<Rightarrow> string \<Rightarrow> string \<Rightarrow> string list" where
  "splitAcc c cur [] = [rev cur]"
| "splitAcc c cur (x # xs) = (if x = c then rev cur # splitAcc c [] xs else splitAcc c (x # cur) xs)"

definition str_split :: "char \<Rightarrow> string \<Rightarrow> string list" where
  "str_split c s = splitAcc c [] s"

section \<open>TimeSlotParser: \<open>extractHourFromTimeSlot\<close> (excelProcessor.ts)\<close>

text \<open>The three regular expressions, each returning its capture group 1 on a match:
  \<^verbatim>\<open>/^(\d{2}):00-\d{2}:59$/\<close>, \<^verbatim>\<open>/^(\d{2})-(\d{2})$/\<close> and \<^verbatim>\<open>/^(\d{1,2}):00$/\<close>.\<close>

definition standardFormat :: "string \<Rightarrow> string option" where
  "standardFormat t =
     (if length t = 11 \<and> isDigit (t ! 0) \<and> isDigit (t ! 1) \<and> take 4 (drop 2 t) = '':00-''
         \<and> isDigit (t ! 6) \<and> isDigit (t ! 7) \<and> drop 8 t = '':59''
      then Some (take 2 t) else None)"

definition dashFormat :: "string \<Rightarrow> string option" where
  "dashFormat t =
     (if length t = 5 \<and> isDigit (t ! 0) \<and> isDigit (t ! 1) \<and> t ! 2 = CHR ''-''
         \<and> isDigit (t ! 3) \<and> isDigit (t ! 4)
      then Some (take 2 t) else None)"

definition simpleHourFormat :: "string \<Rightarrow> string option" where
  "simpleHourFormat t =
     (if length t = 5 \<and> isDigit (t ! 0) \<and> isDigit (t ! 1) \<and> drop 2 t = '':00'' then Some (take 2 t)
      else if length t = 4 \<and> isDigit (t ! 0) \<and> drop 1 t = '':00'' then Some (take 1 t)
      else None)"

text \<open>The \<open>if / else if\<close> chain that assigns \<open>hour\<close>: the hour digits of the first
  pattern that matches, parsed; \<open>None\<close> when \<open>hour\<close> keeps its initial \<open>-1\<close>.\<close>

definition leadingHour :: "string \<Rightarrow> nat option" where
  "leadingHour t =
     (case standardFormat t of Some g \<Rightarrow> Some (parseInt g)
      | None \<Rightarrow> (case dashFormat t of Some g \<Rightarrow> Some (parseInt g)
        | None \<Rightarrow> (case simpleHourFormat t of Some g \<Rightarrow> Some (parseInt g)
          | None \<Rightarrow> None)))"

definition extractHourFromTimeSlot :: "string \<Rightarrow> int" where
  "extractHourFromTimeSlot timeSlot =
     (if timeSlot = [] then - 1
      else let hour = (case leadingHour timeSlot of None \<Rightarrow> - 1 | Some h \<Rightarrow> int h) in
        if hour = - 1 then - 1
        else if 24 \<le> hour \<and> hour \<le> 26 then hour mod 24
        else hour)"

section \<open>Arrays, maps and sorting as JavaScript has them\<close>

text \<open>
  An array of numbers is a list of slots; \<open>None\<close> is a hole (an index below \<open>length\<close> that
  was never written). Writing beyond the end extends the array and leaves holes, as
  JavaScript does. \<open>arr_get\<close> is a read in an arithmetic position: a hole or an index out
  of range reads \<open>undefined\<close>, which converts to \<open>NaN\<close>.
\<close>

type_synonym numarray = "number option list"

definition arr_get :: "numarray \<Rightarrow> nat \<Rightarrow> number" where
  "arr_get a i = (if i < length a then (case a ! i of None \<Rightarrow> NaN | Some v \<Rightarrow> v) else NaN)"

definition arr_set :: "numarray \<Rightarrow> nat \<Rightarrow> number \<Rightarrow> numarray" where
  "arr_set a i v =
     (if i < length a then a[i := Some v] else a @ replicate (i - length a) None @ [Some v])"

text \<open>\<open>Array(n).fill(v)\<close>.\<close>

definition filled :: "nat \<Rightarrow> number \<Rightarrow> numarray" where
  "filled n v = replicate n (Some v)"

text \<open>\<open>a.forEach((v, i) => ...)\<close> threading the state the callback updates; holes are
  not visited.\<close>

primrec forEachFrom :: "nat \<Rightarrow> ('a \<Rightarrow> nat \<Rightarrow> 's \<Rightarrow> 's) \<Rightarrow> 'a option list \<Rightarrow> 's \<Rightarrow> 's" where
  "forEachFrom i f [] s = s"
| "forEachFrom i f (x # xs) s =
     forEachFrom (Suc i) f xs (case x of None \<Rightarrow> s | Some v \<Rightarrow> f v i s)"

definition forEach :: "('a \<Rightarrow> nat \<Rightarrow> 's \<Rightarrow> 's) \<Rightarrow> 'a option list \<Rightarrow> 's \<Rightarrow> 's" where
  "forEach f a s = forEachFrom 0 f a s"

text \<open>\<open>a.map((v, i) => ...)\<close> keeps the holes; \<open>a.filter(p)\<close> skips them and returns a
  dense array.\<close>

primrec mapFrom :: "nat \<Rightarrow> ('a \<Rightarrow> nat \<Rightarrow> 'b) \<Rightarrow> 'a option list \<Rightarrow> 'b option list" where
  "mapFrom i f [] = []"
| "mapFrom i f (x # xs) = (case x of None \<Rightarrow> None | Some v \<Rightarrow> Some (f v i)) # mapFrom (Suc i) f xs"

definition arr_map :: "('a \<Rightarrow> nat \<Rightarrow> 'b) \<Rightarrow> 'a option list \<Rightarrow> 'b option list" where
  "arr_map f a = mapFrom 0 f a"

primrec arr_filter :: "('a \<Rightarrow> bool) \<Rightarrow> 'a option list \<Rightarrow> 'a list" where
  "arr_filter p [] = []"
| "arr_filter p (x # xs) =
     (case x of None \<Rightarrow> arr_filter p xs
      | Some v \<Rightarrow> if p v then v # arr_filter p xs else arr_filter p xs)"

text \<open>\<open>Math.max(...a)\<close>: the spread reads a hole as \<open>undefined\<close>, which is \<open>NaN\<close> to
  \<open>Math.max\<close>. \<open>None\<close> stands for \<open>-Infinity\<close>, the value of \<open>Math.max()\<close> without
  arguments, which no number of the model equals.\<close>

definition spreadMax :: "numarray \<Rightarrow> number option" where
  "spreadMax a =
     (case map (\<lambda>x. case x of None \<Rightarrow> NaN | Some v \<Rightarrow> v) a of
        [] \<Rightarrow> None
      | x # xs \<Rightarrow> Some (foldl mathMax x xs))"

text \<open>\<open>data.findIndex(p)\<close>.\<close>

primrec findIndexFrom :: "int \<Rightarrow> ('a \<Rightarrow> bool) \<Rightarrow> 'a list \<Rightarrow> int" where
  "findIndexFrom i p [] = - 1"
| "findIndexFrom i p (x # xs) = (if p x then i else findIndexFrom (i + 1) p xs)"

definition findIndex :: "('a \<Rightarrow> bool) \<Rightarrow> 'a list \<Rightarrow> int" where
  "findIndex p xs = findIndexFrom 0 p xs"

text \<open>
  A \<open>Map\<close> is an association list in insertion order with distinct keys: \<open>set\<close> replaces
  the value of a key that is present, in place, and appends a new key at the end.
\<close>

type_synonym ('k, 'v) jsmap = "('k \<times> 'v) list"

definition map_has :: "('k, 'v) jsmap \<Rightarrow> 'k \<Rightarrow> bool" where
  "map_has m k = (map_of m k \<noteq> None)"

definition map_get :: "('k, 'v) jsmap \<Rightarrow> 'k \<Rightarrow> 'v option" where
  "map_get m k = map_of m k"

definition map_set :: "'k \<Rightarrow> 'v \<Rightarrow> ('k, 'v) jsmap \<Rightarrow> ('k, 'v) jsmap" where
  "map_set k v m = AList.update k v m"

definition map_values :: "('k, 'v) jsmap \<Rightarrow> 'v list" where
  "map_values m = map snd m"

text \<open>
  \<open>a.sort(cmp)\<close>: a stable sort; \<open>cmp x y > 0\<close> places \<open>x\<close> after \<open>y\<close>, any other result
  (negative, zero, \<open>NaN\<close>) keeps \<open>x\<close> before the later element \<open>y\<close>. For a consistent
  comparator every conforming sort returns this list; for an inconsistent one the
  language leaves the order to the implementation, and this is one such order.
\<close>

fun insertBy :: "('a \<Rightarrow> 'a \<Rightarrow> number) \<Rightarrow> 'a \<Rightarrow> 'a list \<Rightarrow> 'a list" where
  "insertBy cmp x [] = [x]"
| "insertBy cmp x (y # ys) = (if gt (cmp x y) (Fin 0) then y # insertBy cmp x ys else x # y # ys)"

definition sortBy :: "('a \<Rightarrow> 'a \<Rightarrow> number) \<Rightarrow> 'a list \<Rightarrow> 'a list" where
  "sortBy cmp xs = foldr (insertBy cmp) xs []"

section \<open>Data model (types.ts)\<close>

text \<open>
  The records keep the fields the claims read. The optional age-group arrays and the
  programs attached to a day are left out: the aggregation code computes them beside
  the fields below and never reads them back.
\<close>

datatype error = Error string

text \<open>
  A program entry with the fields that \<open>calculateEndTimes\<close> reads or writes, and its
  title. An optional field is \<open>None\<close> when it is \<open>undefined\<close>.
\<close>

text \<open>(\<open>notes\<close> is a keyword of Isabelle; the field is \<open>notes'\<close>.)\<close>

record ProgramData =
  title :: string
  startTime :: string
  endTime :: "string option"
  duration :: "number option"
  notes' :: "string option"
  sequence :: "number option"
  week :: "number option"

text \<open>The schedule of a file: its days map a date to the programs of that day. The
  optional flat \<open>programs\<close> array is left out (nothing in the sources assigns it). The
  field \<open>days\<close> is written \<open>ScheduleData.days\<close>, since \<open>days\<close> alone is the field of the
  month summary declared below.\<close>

record ScheduleData =
  weekNumber :: number
  year :: number
  days :: "(string, ProgramData list) jsmap"
  weeks :: "number list option"

record DailyData =
  date :: string
  dayOfWeek :: string
  totalViewers :: number
  hourlyViewers :: numarray
  hourlyPercentages :: numarray

record ProcessedMonthData =
  monthYear :: string
  days :: "DailyData list"
  averageHourlyViewers :: numarray
  maxViewersPerHour :: numarray
  totalViewersPerHour :: numarray
  peakDay :: string
  peakHour :: int
  totalViewers :: number

text \<open>The three arrays the hourly loops fill together.\<close>

record hourly =
  averageAcc :: numarray
  maxAcc :: numarray
  totalAcc :: numarray

text \<open>The comparator both sorts use:
  \<^verbatim>\<open>const [aDay, aMonth, aYear] = a.date.split('-').map(Number); ...
  return new Date(aYear, aMonth - 1, aDay).getTime() - new Date(bYear, bMonth - 1, bDay).getTime()\<close>.
  A missing part is \<open>undefined\<close>, which is \<open>NaN\<close> in the subtraction and to \<open>Date\<close>; nothing
  in the \<open>try\<close> block can throw.\<close>

definition dateValue :: "builtins \<Rightarrow> string \<Rightarrow> number" where
  "dateValue P s =
     (let parts = map (toNumber P) (str_split (CHR ''-'') s);
          part = (\<lambda>i. if i < length parts then parts ! i else NaN);
          aDay = part 0; aMonth = part 1; aYear = part 2
      in dateTime P aYear (nsub aMonth (Fin 1)) aDay)"

definition compareDates :: "builtins \<Rightarrow> DailyData \<Rightarrow> DailyData \<Rightarrow> number" where
  "compareDates P a b = nsub (dateValue P (date a)) (dateValue P (date b))"

section \<open>MonthAggregator: the second half of \<open>processViewerData\<close> (excelProcessor.ts)\<close>

text \<open>Lines 353-371: the per-hour totals, maxima and averages.\<close>

definition pvd_addViewers :: "number \<Rightarrow> nat \<Rightarrow> hourly \<Rightarrow> hourly" where
  "pvd_addViewers viewers hour acc =
     acc\<lparr>totalAcc := arr_set (totalAcc acc) hour (arr_get (totalAcc acc) hour + viewers),
         averageAcc := arr_set (averageAcc acc) hour (arr_get (averageAcc acc) hour + viewers),
         maxAcc := arr_set (maxAcc acc) hour (mathMax (arr_get (maxAcc acc) hour) viewers)\<rparr>"

definition pvd_accumulate :: "DailyData list \<Rightarrow> hourly" where
  "pvd_accumulate ds =
     fold (\<lambda>day acc. forEach pvd_addViewers (hourlyViewers day) acc) ds
       \<lparr>averageAcc = filled 24 0, maxAcc = filled 24 0, totalAcc = filled 24 0\<rparr>"

definition pvd_average :: "nat \<Rightarrow> numarray \<Rightarrow> numarray" where
  "pvd_average n a =
     (if n > 0 then fold (\<lambda>i a. arr_set a i (mathRound (ndiv (arr_get a i) (of_nat n)))) [0..<24] a
      else a)"

text \<open>Lines 373-377: the day with the most viewers, the first one on a tie.\<close>

definition pvd_peakDay :: "DailyData list \<Rightarrow> string" where
  "pvd_peakDay ds =
     (if length ds > 0
      then snd (fold (\<lambda>day mx. if gt (DailyData.totalViewers day) (fst mx)
                                then (DailyData.totalViewers day, date day) else mx)
                  ds (Fin 0, ''''))
      else ''Geen data'')"

text \<open>Lines 379-423: the peak hour.\<close>

definition pvd_peakHoursIndices :: "numarray \<Rightarrow> int list" where
  "pvd_peakHoursIndices tot =
     (let maxTotalViewers = spreadMax tot in
      arr_filter (\<lambda>index. index \<noteq> - 1)
        (arr_map (\<lambda>viewers index.
            if (case maxTotalViewers of None \<Rightarrow> False | Some m \<Rightarrow> strictEq viewers m)
            then int index else - 1) tot))"

definition pvd_peakHour :: "numarray \<Rightarrow> int" where
  "pvd_peakHour tot =
     (let peakHoursIndices = pvd_peakHoursIndices tot;
          peakHourIndex =
            (if length peakHoursIndices > 0
             then (let eveningPeakHours = filter (\<lambda>hour. 18 \<le> hour \<and> hour \<le> 23) peakHoursIndices
                   in if length eveningPeakHours > 0 then last eveningPeakHours
                      else last peakHoursIndices)
             else 0)
      in if 0 \<le> peakHourIndex \<and> peakHourIndex < 24 then peakHourIndex else 0)"

definition monthSummary :: "string \<Rightarrow> DailyData list \<Rightarrow> ProcessedMonthData" where
  "monthSummary label ds =
     (let acc = pvd_accumulate ds in
      \<lparr>monthYear = label,
       days = ds,
       averageHourlyViewers = pvd_average (length ds) (averageAcc acc),
       maxViewersPerHour = maxAcc acc,
       totalViewersPerHour = totalAcc acc,
       peakDay = pvd_peakDay ds,
       peakHour = pvd_peakHour (totalAcc acc),
       totalViewers = fold (\<lambda>day sum. sum + DailyData.totalViewers day) ds 0\<rparr>)"

section \<open>ViewershipExtractor: the first half of \<open>processViewerData\<close> (excelProcessor.ts)\<close>

text \<open>A cell of the grid that \<open>sheet_to_json\<close> with \<open>header: 1\<close> delivers: a string, a
  number, or nothing (\<open>undefined\<close>, also a hole of a sparse row). Every row is an array.\<close>

datatype cell = Empty | Str string | Num rat

definition cell_at :: "cell list \<Rightarrow> int \<Rightarrow> cell" where
  "cell_at row i = (if 0 \<le> i \<and> nat i < length row then row ! nat i else Empty)"

definition falsy :: "cell \<Rightarrow> bool" where
  "falsy c = (c = Empty \<or> c = Str [] \<or> c = Num 0)"

text \<open>\<open>row[i]?.toString() || ''\<close>.\<close>

definition cellString :: "builtins \<Rightarrow> cell \<Rightarrow> string" where
  "cellString P c = (case c of Empty \<Rightarrow> [] | Str s \<Rightarrow> s | Num r \<Rightarrow> numberToString P (Fin r))"

text \<open>\<open>Number(c)\<close> and \<open>Number(c || 0)\<close>.\<close>

definition cellNumber :: "builtins \<Rightarrow> cell \<Rightarrow> number" where
  "cellNumber P c = (case c of Empty \<Rightarrow> NaN | Str s \<Rightarrow> toNumber P s | Num r \<Rightarrow> Fin r)"

definition cellNumberOr0 :: "builtins \<Rightarrow> cell \<Rightarrow> number" where
  "cellNumberOr0 P c = (if falsy c then Fin 0 else cellNumber P c)"

definition excelDateToString :: "builtins \<Rightarrow> rat \<Rightarrow> string" where
  "excelDateToString P serial =
     (if serial = 0 then []
      else let utcDays = \<lfloor>serial - 25569\<rfloor>;
               utcValue = utcDays * 86400;
               (d, m, y) = dateFields P (of_int (utcValue * 1000))
           in padStart2 (numberToString P d) @ ''-'' @ padStart2 (numberToString P (m + Fin 1))
                @ ''-'' @ numberToString P y)"

text \<open>Lines 126-132: the header row.\<close>

definition isHeaderRow :: "cell list \<Rightarrow> bool" where
  "isHeaderRow row =
     (length row > 2 \<and> row ! 0 = Str ''Datum'' \<and> row ! 1 = Str ''Dag'' \<and> row ! 2 = Str ''Tijdvak'')"

text \<open>Lines 149-220: the columns, by header text and then by position.\<close>

record columns =
  totalViewersColumnIndex :: int
  kijkcijfersColumnIndex :: int
  percentageColumnIndex :: int

definition scanHeader :: "cell \<Rightarrow> nat \<Rightarrow> columns \<Rightarrow> columns" where
  "scanHeader header index c =
     (case header of
        Str h \<Rightarrow>
          if h = [] then c
          else
            (let c1 = (if str_includes h ''Dagcijfers'' \<or> str_includes h ''kijkdichtheid per dag''
                          \<or> str_includes h ''dagcijfers'' \<or> str_includes h ''Kijkers per dag''
                       then c\<lparr>totalViewersColumnIndex := int index\<rparr> else c);
                 c2 = (if str_includes h ''Kijkcijfers per programma''
                          \<or> str_includes h ''kijkcijfers per programma''
                          \<or> str_includes h ''Kijkcijfer per uur'' \<or> str_includes h ''kijkcijfer per uur''
                       then c1\<lparr>kijkcijfersColumnIndex := int index\<rparr> else c1)
             in if h = ''TOTAL'' \<or> h = ''Total'' \<or> h = ''Totaal'' \<or> str_includes h ''percentage''
                then c2\<lparr>percentageColumnIndex := int index\<rparr> else c2)
      | _ \<Rightarrow> c)"

definition firstInBounds :: "int list \<Rightarrow> nat \<Rightarrow> int" where
  "firstInBounds possibleColumns n =
     (case filter (\<lambda>pos. pos < int n) possibleColumns of [] \<Rightarrow> - 1 | pos # _ \<Rightarrow> pos)"

definition resolveColumns :: "cell list \<Rightarrow> columns" where
  "resolveColumns header =
     (let c0 = fold (\<lambda>(i, h). scanHeader h i) (enumerate 0 header)
                 \<lparr>totalViewersColumnIndex = - 1, kijkcijfersColumnIndex = - 1,
                  percentageColumnIndex = - 1\<rparr>;
          c1 = (if totalViewersColumnIndex c0 = - 1
                then c0\<lparr>totalViewersColumnIndex := firstInBounds [3, 4, 5, 6] (length header)\<rparr>
                else c0);
          c2 = (if percentageColumnIndex c1 = - 1
                then c1\<lparr>percentageColumnIndex := firstInBounds [4, 5, 6, 7] (length header)\<rparr>
                else c1);
          c3 = (if totalViewersColumnIndex c2 = - 1 then c2\<lparr>totalViewersColumnIndex := 4\<rparr> else c2)
      in if percentageColumnIndex c3 = - 1 then c3\<lparr>percentageColumnIndex := 6\<rparr> else c3)"

text \<open>Lines 246-329: one data row. The values a row computes are named apart so that
  they can be referred to: the percentage (divided by 100 when above 1), the day total,
  and the viewers of the hour (the pre-calculated figure when the grid has that column
  and the cell is defined, replaced by the rounded product when it is zero).\<close>

definition rowPercent :: "builtins \<Rightarrow> columns \<Rightarrow> cell list \<Rightarrow> number" where
  "rowPercent P c row =
     (let totalViewerPercent = cellNumberOr0 P (cell_at row (percentageColumnIndex c))
      in if gt totalViewerPercent (Fin 1) then ndiv totalViewerPercent 100 else totalViewerPercent)"

definition rowDailyViewers :: "builtins \<Rightarrow> columns \<Rightarrow> cell list \<Rightarrow> number" where
  "rowDailyViewers P c row = cellNumberOr0 P (cell_at row (totalViewersColumnIndex c))"

definition rowHourlyViewers :: "builtins \<Rightarrow> columns \<Rightarrow> cell list \<Rightarrow> number" where
  "rowHourlyViewers P c row =
     (let totalViewerPercent = rowPercent P c row;
          totalDailyViewers = rowDailyViewers P c row;
          hourlyViewers =
            (if kijkcijfersColumnIndex c \<noteq> - 1 \<and> cell_at row (kijkcijfersColumnIndex c) \<noteq> Empty
             then cellNumber P (cell_at row (kijkcijfersColumnIndex c)) else Fin 0)
      in if strictEq hourlyViewers (Fin 0) \<and> gt totalDailyViewers (Fin 0) \<and> gt totalViewerPercent (Fin 0)
         then mathRound (nmul totalViewerPercent totalDailyViewers)
         else hourlyViewers)"

text \<open>The date key of a row and its hour, or \<open>None\<close> when the row is skipped
  (\<open>continue\<close>): too short, no date or time slot, an unparsable time slot, an empty
  date string.\<close>

definition rowSlot :: "builtins \<Rightarrow> columns \<Rightarrow> cell list \<Rightarrow> (string \<times> nat) option" where
  "rowSlot P c row =
     (if int (length row) < max (totalViewersColumnIndex c) (percentageColumnIndex c) + 1 then None
      else let excelDate = cell_at row 0;
               timeSlot = cellString P (cell_at row 2)
           in if falsy excelDate \<or> timeSlot = [] then None
              else let hour = extractHourFromTimeSlot timeSlot
                   in if hour = - 1 then None
                      else let dateString = (case excelDate of Num r \<Rightarrow> excelDateToString P r
                                              | Str s \<Rightarrow> s | Empty \<Rightarrow> [])
                           in if dateString = [] then None else Some (dateString, nat hour))"

definition processRow :: "builtins \<Rightarrow> columns \<Rightarrow> cell list \<Rightarrow> (string, DailyData) jsmap
    \<Rightarrow> (string, DailyData) jsmap" where
  "processRow P c row daysMap =
     (case rowSlot P c row of
        None \<Rightarrow> daysMap
      | Some (dateString, hour) \<Rightarrow>
          (let daysMap1 =
                 (if \<not> map_has daysMap dateString
                  then map_set dateString
                         \<lparr>date = dateString, dayOfWeek = cellString P (cell_at row 1),
                          totalViewers = rowDailyViewers P c row,
                          hourlyViewers = filled 24 0, hourlyPercentages = filled 24 0\<rparr> daysMap
                  else daysMap)
           in case map_get daysMap1 dateString of
                None \<Rightarrow> daysMap1
              | Some dayData \<Rightarrow>
                  map_set dateString
                    (dayData\<lparr>hourlyViewers := arr_set (hourlyViewers dayData) hour (rowHourlyViewers P c row),
                             hourlyPercentages := arr_set (hourlyPercentages dayData) hour (rowPercent P c row)\<rparr>)
                    daysMap1))"

text \<open>Lines 332-344: the days that remain, sorted by date.\<close>

definition extractDays :: "builtins \<Rightarrow> columns \<Rightarrow> cell list list \<Rightarrow> DailyData list" where
  "extractDays P c rows =
     sortBy (compareDates P)
       (filter (\<lambda>day. gt (DailyData.totalViewers day) (Fin 0))
          (map_values (fold (processRow P c) rows [])))"

definition processViewerData :: "builtins \<Rightarrow> cell list list \<Rightarrow> string \<Rightarrow> error + ProcessedMonthData" where
  "processViewerData P data label =
     (let headerRowIndex = findIndex isHeaderRow data in
      if headerRowIndex = - 1 then Inl (Error ''Could not find header row in Excel file'')
      else let dataStartRow = nat headerRowIndex + 1;
               c = resolveColumns (data ! nat headerRowIndex)
           in Inr (monthSummary label (extractDays P c (drop dataStartRow data))))"

section \<open>MultiPeriodAggregator: \<open>aggregateMonthsData\<close> (dataAggregator.ts)\<close>

text \<open>Lines 26-35: all days of all months in one map keyed by date; a date that occurs
  again replaces the earlier day and keeps its place.\<close>

definition unionDays :: "ProcessedMonthData list \<Rightarrow> (string, DailyData) jsmap" where
  "unionDays monthsData =
     fold (\<lambda>monthData allDaysMap.
             fold (\<lambda>day m. map_set (date day) day m) (days monthData) allDaysMap)
       monthsData []"

text \<open>Lines 54-71.\<close>

definition agg_addViewers :: "number \<Rightarrow> nat \<Rightarrow> hourly \<Rightarrow> hourly" where
  "agg_addViewers viewers hour acc =
     acc\<lparr>totalAcc := arr_set (totalAcc acc) hour (arr_get (totalAcc acc) hour + viewers),
         averageAcc := arr_set (averageAcc acc) hour (arr_get (averageAcc acc) hour + viewers),
         maxAcc := arr_set (maxAcc acc) hour (mathMax (arr_get (maxAcc acc) hour) viewers)\<rparr>"

definition agg_accumulate :: "DailyData list \<Rightarrow> hourly" where
  "agg_accumulate allDays =
     fold (\<lambda>day acc. forEach agg_addViewers (hourlyViewers day) acc) allDays
       \<lparr>averageAcc = filled 24 0, maxAcc = filled 24 0, totalAcc = filled 24 0\<rparr>"

definition agg_average :: "nat \<Rightarrow> numarray \<Rightarrow> numarray" where
  "agg_average n a =
     (if n > 0 then fold (\<lambda>i a. arr_set a i (mathRound (ndiv (arr_get a i) (of_nat n)))) [0..<24] a
      else a)"

text \<open>Lines 73-77.\<close>

definition agg_peakDay :: "DailyData list \<Rightarrow> string" where
  "agg_peakDay allDays =
     snd (fold (\<lambda>day mx. if gt (DailyData.totalViewers day) (fst mx)
                          then (DailyData.totalViewers day, date day) else mx)
            allDays (Fin 0, ''''))"

text \<open>Lines 79-119.\<close>

definition agg_peakHoursIndices :: "numarray \<Rightarrow> int list" where
  "agg_peakHoursIndices tot =
     (let maxTotalViewers = spreadMax tot in
      arr_filter (\<lambda>index. index \<noteq> - 1)
        (arr_map (\<lambda>viewers index.
            if (case maxTotalViewers of None \<Rightarrow> False | Some m \<Rightarrow> strictEq viewers m)
            then int index else - 1) tot))"

definition agg_peakHour :: "numarray \<Rightarrow> int" where
  "agg_peakHour tot =
     (let peakHoursIndices = agg_peakHoursIndices tot;
          peakHourIndex =
            (if length peakHoursIndices > 0
             then (let eveningPeakHours = filter (\<lambda>hour. 18 \<le> hour \<and> hour \<le> 23) peakHoursIndices
                   in if length eveningPeakHours > 0 then last eveningPeakHours
                      else last peakHoursIndices)
             else 0)
      in if 0 \<le> peakHourIndex \<and> peakHourIndex < 24 then peakHourIndex else 0)"

text \<open>Lines 133-138: the time span in the label. The list has at least two elements
  where this is used, so \<open>monthsData[0]\<close> and the last element exist.\<close>

definition timespan :: "ProcessedMonthData list \<Rightarrow> string" where
  "timespan monthsData =
     (let firstMonthYear = monthYear (monthsData ! 0);
          lastMonthYear = monthYear (monthsData ! (length monthsData - 1))
      in if length monthsData > 1 then firstMonthYear @ '' - '' @ lastMonthYear
         else firstMonthYear)"

text \<open>The argument is \<open>None\<close> when the caller passes nothing (\<open>!monthsData\<close>).\<close>

definition aggregateMonthsData ::
    "builtins \<Rightarrow> ProcessedMonthData list option \<Rightarrow> error + ProcessedMonthData" where
  "aggregateMonthsData P arg =
     (case arg of
        None \<Rightarrow> Inl (Error ''No data provided for aggregation'')
      | Some monthsData \<Rightarrow>
          if length monthsData = 0 then Inl (Error ''No data provided for aggregation'')
          else if length monthsData = 1 then Inr (monthsData ! 0)
          else
            (let allDays = sortBy (compareDates P) (map_values (unionDays monthsData));
                 acc = agg_accumulate allDays
             in Inr \<lparr>monthYear = ''Samenvatting ('' @ timespan monthsData @ '')'',
                     days = allDays,
                     averageHourlyViewers = agg_average (length allDays) (averageAcc acc),
                     maxViewersPerHour = maxAcc acc,
                     totalViewersPerHour = totalAcc acc,
                     peakDay = agg_peakDay allDays,
                     peakHour = agg_peakHour (totalAcc acc),
                     totalViewers = fold (\<lambda>day sum. sum + DailyData.totalViewers day) allDays 0\<rparr>))"

section \<open>Notions the claims are stated with\<close>

text \<open>What \<open>forEach\<close> finds at index \<open>h\<close> of a day's array: the number stored there,
  and nothing (zero added) where the array has a hole or ends before \<open>h\<close>.\<close>

definition slotValue :: "numarray \<Rightarrow> nat \<Rightarrow> number" where
  "slotValue a h = (if h < length a then (case a ! h of None \<Rightarrow> 0 | Some v \<Rightarrow> v) else 0)"

text \<open>The data-model invariant of a day's hourly arrays, as far as the hours 0 to 23
  go: each of the 24 slots holds a number.\<close>

definition slotsPresent :: "numarray \<Rightarrow> bool" where
  "slotsPresent a = (24 \<le> length a \<and> list_all (\<lambda>x. x \<noteq> None) (take 24 a))"

text \<open>The invariant of a summary that claim C1 states.\<close>

definition totalsInvariant :: "ProcessedMonthData \<Rightarrow> bool" where
  "totalsInvariant s =
     (totalViewers s = (\<Sum>d\<leftarrow>days s. DailyData.totalViewers d)
      \<and> (\<forall>h<24. arr_get (totalViewersPerHour s) h = (\<Sum>d\<leftarrow>days s. arr_get (hourlyViewers d) h)))"

text \<open>The indices that the code collects in \<open>peakHoursIndices\<close>: those whose entry is
  \<open>===\<close> to \<open>Math.max(...totalViewersPerHour)\<close> (used in the proofs).\<close>

definition isPeakIndex :: "numarray \<Rightarrow> nat \<Rightarrow> bool" where
  "isPeakIndex tot h =
     (case spreadMax tot of
        None \<Rightarrow> False
      | Some m \<Rightarrow>
          h < length tot \<and> (case tot ! h of None \<Rightarrow> False | Some v \<Rightarrow> strictEq v m))"

definition peakIndices :: "numarray \<Rightarrow> nat set" where
  "peakIndices tot = {h. isPeakIndex tot h}"





text \<open>The rows below the header of a grid, and the columns resolved from its header, as
  \<open>processViewerData\<close> computes them (\<open>data.slice(dataStartRow)\<close> and the three column
  indices).\<close>

definition dataRows :: "cell list list \<Rightarrow> cell list list" where
  "dataRows g = drop (nat (findIndex isHeaderRow g) + 1) g"

definition gridColumns :: "cell list list \<Rightarrow> columns" where
  "gridColumns g = resolveColumns (g ! nat (findIndex isHeaderRow g))"

text \<open>Two properties of the map of days used in the proofs: every key is the date of
  its day and occurs once; and the day stored for a date holds given values at an hour.\<close>

definition keyed :: "(string, DailyData) jsmap \<Rightarrow> bool" where
  "keyed m = (distinct (map fst m) \<and> (\<forall>(k, day)\<in>set m. date day = k))"

definition holds :: "(string, DailyData) jsmap \<Rightarrow> string \<Rightarrow> nat \<Rightarrow> number \<Rightarrow> number \<Rightarrow> bool" where
  "holds m d h v p =
     (\<exists>day. map_of m d = Some day \<and> arr_get (hourlyViewers day) h = v \<and> arr_get (hourlyPercentages day) h = p)"

section \<open>ScheduleParser: \<open>calculateEndTimes\<close> (programScheduleParser part of csvProcessor.ts)\<close>

text \<open>Truthiness of an optional number and of an optional string, \<open>x || 0\<close>, and
  \<open>undefined\<close> in an arithmetic position.\<close>

definition numTruthy :: "number option \<Rightarrow> bool" where
  "numTruthy x = (case x of None \<Rightarrow> False | Some n \<Rightarrow> truthy n)"

definition strTruthy :: "string option \<Rightarrow> bool" where
  "strTruthy x = (case x of None \<Rightarrow> False | Some s \<Rightarrow> s \<noteq> [])"

definition orZero :: "number option \<Rightarrow> number" where
  "orZero x = (if numTruthy x then (case x of None \<Rightarrow> Fin 0 | Some n \<Rightarrow> n) else Fin 0)"

definition undefNaN :: "number option \<Rightarrow> number" where
  "undefNaN x = (case x of None \<Rightarrow> NaN | Some n \<Rightarrow> n)"

text \<open>\<open>const [hour, minute] = t.split(':').map(Number)\<close>: the minute is \<open>undefined\<close> when
  the string has no colon.\<close>

definition timeParts :: "builtins \<Rightarrow> string \<Rightarrow> number \<times> number option" where
  "timeParts P t =
     (case map (toNumber P) (str_split (CHR '':'') t) of
        [] \<Rightarrow> (NaN, None)
      | [h] \<Rightarrow> (h, None)
      | h # m # rest \<Rightarrow> (h, Some m))"

text \<open>\<open>`${h.toString().padStart(2, '0')}:${m.toString().padStart(2, '0')}`\<close>.\<close>

definition formatTime :: "builtins \<Rightarrow> number \<Rightarrow> number \<Rightarrow> string" where
  "formatTime P h m = padStart2 (numberToString P h) @ '':'' @ padStart2 (numberToString P m)"

text \<open>Lines 766-791: programs of the same week and start time get sequence numbers and
  a note. The map holds, for each key, the indices of its programs in the day's array
  (the code holds references to the same objects, which it then mutates).\<close>

definition slotKey :: "builtins \<Rightarrow> ProgramData \<Rightarrow> string" where
  "slotKey P program = numberToString P (orZero (week program)) @ ''-'' @ startTime program"

definition groupSlots :: "builtins \<Rightarrow> ProgramData list \<Rightarrow> (string, nat list) jsmap" where
  "groupSlots P programs =
     fold (\<lambda>(i, program) m.
             let key = slotKey P program;
                 m1 = (if \<not> map_has m key then map_set key [] m else m)
             in case map_get m1 key of None \<Rightarrow> m1 | Some slot \<Rightarrow> map_set key (slot @ [i]) m1)
       (enumerate 0 programs) []"

definition markMultiple :: "builtins \<Rightarrow> nat \<Rightarrow> nat \<Rightarrow> ProgramData \<Rightarrow> ProgramData" where
  "markMultiple P index n program =
     (let notes0 = (if strTruthy (notes' program) then (case notes' program of None \<Rightarrow> [] | Some s \<Rightarrow> s) else []);
          notes1 = (if notes0 \<noteq> [] then notes0 @ '', '' else notes0)
      in program
           \<lparr>sequence := Some (Fin (of_nat (index + 1))),
            notes' := Some (notes1 @ ''Multiple programs ('' @ numberToString P (Fin (of_nat (index + 1)))
                            @ ''/'' @ numberToString P (Fin (of_nat n)) @ '')'')\<rparr>)"

definition assignSequences :: "builtins \<Rightarrow> ProgramData list \<Rightarrow> ProgramData list" where
  "assignSequences P programs =
     fold (\<lambda>(key, timePrograms) ps.
             if length timePrograms > 1
             then fold (\<lambda>(index, i) ps. ps[i := markMultiple P index (length timePrograms) (ps ! i)])
                    (enumerate 0 timePrograms) ps
             else ps)
       (groupSlots P programs) programs"

text \<open>Lines 794-806: the comparator of the sort, by week, start time and sequence.\<close>

definition compareProgram :: "builtins \<Rightarrow> ProgramData \<Rightarrow> ProgramData \<Rightarrow> number" where
  "compareProgram P a b =
     (let weekA = orZero (week a); weekB = orZero (week b) in
      if \<not> strictEq weekA weekB then nsub weekA weekB
      else let timeComparison = localeCompare P (startTime a) (startTime b) in
        if \<not> strictEq timeComparison (Fin 0) then timeComparison
        else nsub (orZero (sequence a)) (orZero (sequence b)))"

definition sortedPrograms :: "builtins \<Rightarrow> ProgramData list \<Rightarrow> ProgramData list" where
  "sortedPrograms P programs = sortBy (compareProgram P) (assignSequences P programs)"

text \<open>Lines 814-817: the next program is the following one of the same slot.\<close>

definition isSibling :: "ProgramData \<Rightarrow> ProgramData \<Rightarrow> bool" where
  "isSibling currentProgram nextProgram =
     (numTruthy (sequence currentProgram)
      \<and> startTime currentProgram = startTime nextProgram
      \<and> (case sequence currentProgram of None \<Rightarrow> False
          | Some a \<Rightarrow> (case sequence nextProgram of None \<Rightarrow> False | Some b \<Rightarrow> strictEq (a + Fin 1) b))
      \<and> (case week currentProgram of
            None \<Rightarrow> week nextProgram = None
          | Some a \<Rightarrow> (case week nextProgram of None \<Rightarrow> False | Some b \<Rightarrow> strictEq a b)))"

text \<open>Lines 819-833: the default of 15 minutes inside a slot.\<close>

definition slotDefault :: "builtins \<Rightarrow> ProgramData \<Rightarrow> ProgramData" where
  "slotDefault P currentProgram =
     (let (startHour, startMinute) = timeParts P (startTime currentProgram);
          endMinute = undefNaN startMinute + Fin 15
      in currentProgram
           \<lparr>duration := Some (Fin 15),
            endTime := Some (if ge endMinute (Fin 60)
                             then formatTime P (nmod (startHour + mathFloor (ndiv endMinute 60)) 24)
                                    (nmod endMinute 60)
                             else formatTime P startHour endMinute)\<rparr>)"

text \<open>Lines 836-851: the program ends when the next one starts.\<close>

definition endAtNext :: "builtins \<Rightarrow> ProgramData \<Rightarrow> ProgramData \<Rightarrow> ProgramData" where
  "endAtNext P currentProgram nextProgram =
     (let current1 = currentProgram\<lparr>endTime := Some (startTime nextProgram)\<rparr> in
      if \<not> numTruthy (duration current1) \<and> startTime current1 \<noteq> [] \<and> strTruthy (endTime current1)
      then let (startHour, startMinute) = timeParts P (startTime current1);
               (endHour, endMinute) = timeParts P (startTime nextProgram);
               durationMinutes = nmul (nsub endHour startHour) (Fin 60)
                                   + nsub (undefNaN endMinute) (undefNaN startMinute)
           in current1\<lparr>duration := Some (if lt durationMinutes (Fin 0)
                                            then durationMinutes + Fin (24 * 60) else durationMinutes)\<rparr>
      else current1)"

definition stepEnd :: "builtins \<Rightarrow> ProgramData \<Rightarrow> ProgramData \<Rightarrow> ProgramData" where
  "stepEnd P currentProgram nextProgram =
     (if isSibling currentProgram nextProgram
      then (if \<not> numTruthy (duration currentProgram) then slotDefault P currentProgram
            else currentProgram)
      else endAtNext P currentProgram nextProgram)"


text \<open>Lines 856-876: the last program. The end time computed from a duration, the
  default of one hour, and the step itself. In the default branch \<open>startMinute.toString()\<close>
  throws a TypeError when the start time has no colon.\<close>

definition endFromDuration :: "builtins \<Rightarrow> string \<Rightarrow> number \<Rightarrow> string" where
  "endFromDuration P start d =
     (let (startHour, startMinute) = timeParts P start;
          endMinute = undefNaN startMinute + d;
          endHour = startHour + mathFloor (ndiv endMinute 60)
      in formatTime P (nmod endHour 24) (nmod endMinute 60))"

definition endAfterHour :: "builtins \<Rightarrow> string \<Rightarrow> error + string" where
  "endAfterHour P start =
     (let (startHour, startMinute) = timeParts P start;
          endHour = nmod (startHour + Fin 1) 24
      in case startMinute of
           None \<Rightarrow> Inl (Error ''TypeError'')
         | Some minute \<Rightarrow> Inr (formatTime P endHour minute))"

definition finishLast :: "builtins \<Rightarrow> ProgramData \<Rightarrow> error + ProgramData" where
  "finishLast P lastProgram =
     (if numTruthy (duration lastProgram) \<and> \<not> strTruthy (endTime lastProgram)
      then Inr (lastProgram\<lparr>endTime :=
                  Some (endFromDuration P (startTime lastProgram) (undefNaN (duration lastProgram)))\<rparr>)
      else if \<not> numTruthy (duration lastProgram) \<and> \<not> strTruthy (endTime lastProgram)
      then (case endAfterHour P (startTime lastProgram) of
              Inl e \<Rightarrow> Inl e
            | Inr t \<Rightarrow> Inr (lastProgram\<lparr>duration := Some (Fin 60), endTime := Some t\<rparr>))
      else Inr lastProgram)"




subsection \<open>Notions of the specification\<close>




text \<open>What the sequence numbering leaves of an entry as it is: all but the sequence and
  the notes.\<close>

definition parsedFields :: "ProgramData \<Rightarrow> string \<times> string \<times> string option \<times> number option \<times> number option" where
  "parsedFields p = (title p, startTime p, endTime p, duration p, week p)"




section \<open>A reference platform for concrete runs\<close>

text \<open>
  The theorems hold for every value of the \<open>builtins\<close> record. To run the model on
  concrete inputs, \<open>refPlatform\<close> fixes one: it agrees with ECMAScript on the inputs the
  runs below use, namely decimal digit strings for \<open>Number\<close>, integers and \<open>NaN\<close> for
  \<open>toString\<close>, strings of equal length made of digits and the same punctuation for
  \<open>localeCompare\<close>, and the UTC time zone for \<open>Date\<close>.
\<close>

fun showNat :: "nat \<Rightarrow> string" where
  "showNat n = (if n < 10 then [char_of (48 + n)] else showNat (n div 10) @ [char_of (48 + n mod 10)])"

declare showNat.simps [simp del]

definition showInt :: "int \<Rightarrow> string" where
  "showInt i = (if i < 0 then CHR ''-'' # showNat (nat (- i)) else showNat (nat i))"

definition ref_toNumber :: "string \<Rightarrow> number" where
  "ref_toNumber s =
     (if list_all isDigit s then Fin (foldl (\<lambda>acc c. 10 * acc + of_nat (digitVal c)) 0 s) else NaN)"

definition ref_numberToString :: "number \<Rightarrow> string" where
  "ref_numberToString n = (case n of NaN \<Rightarrow> ''NaN'' | Fin r \<Rightarrow> showInt \<lfloor>r\<rfloor>)"

fun ref_compare :: "string \<Rightarrow> string \<Rightarrow> int" where
  "ref_compare [] [] = 0"
| "ref_compare [] (y # ys) = - 1"
| "ref_compare (x # xs) [] = 1"
| "ref_compare (x # xs) (y # ys) =
     (if (of_char x :: nat) < of_char y then - 1
      else if (of_char y :: nat) < of_char x then 1
      else ref_compare xs ys)"

definition ref_localeCompare :: "string \<Rightarrow> string \<Rightarrow> number" where
  "ref_localeCompare a b = Fin (of_int (ref_compare a b))"

text \<open>Days from 1970-01-01 to the first day of a month of the proleptic Gregorian
  calendar, and back.\<close>

definition daysFromCivil :: "int \<Rightarrow> int \<Rightarrow> int \<Rightarrow> int" where
  "daysFromCivil y m d =
     (let y1 = (if m \<le> 2 then y - 1 else y);
          era = y1 div 400;
          yoe = y1 - era * 400;
          doy = (153 * (if m > 2 then m - 3 else m + 9) + 2) div 5 + d - 1;
          doe = yoe * 365 + yoe div 4 - yoe div 100 + doy
      in era * 146097 + doe - 719468)"

definition civilFromDays :: "int \<Rightarrow> int \<times> int \<times> int" where
  "civilFromDays z0 =
     (let z = z0 + 719468;
          era = z div 146097;
          doe = z - era * 146097;
          yoe = (doe - doe div 1460 + doe div 36524 - doe div 146096) div 365;
          doy = doe - (365 * yoe + yoe div 4 - yoe div 100);
          mp = (5 * doy + 2) div 153;
          d = doy - (153 * mp + 2) div 5 + 1;
          m = (if mp < 10 then mp + 3 else mp - 9)
      in (d, m, yoe + era * 400 + (if m \<le> 2 then 1 else 0)))"

definition ref_dateTime :: "number \<Rightarrow> number \<Rightarrow> number \<Rightarrow> number" where
  "ref_dateTime y m d =
     (case (y, m, d) of
        (Fin yr, Fin mr, Fin dr) \<Rightarrow>
          (let yi = \<lfloor>yr\<rfloor>; mi = \<lfloor>mr\<rfloor>; di = \<lfloor>dr\<rfloor>;
               yf = (if 0 \<le> yi \<and> yi \<le> 99 then 1900 + yi else yi)
           in Fin (of_int ((daysFromCivil (yf + mi div 12) (mi mod 12 + 1) 1 + (di - 1)) * 86400000)))
      | _ \<Rightarrow> NaN)"

definition ref_dateFields :: "rat \<Rightarrow> number \<times> number \<times> number" where
  "ref_dateFields ms =
     (let (d, m, y) = civilFromDays (\<lfloor>ms\<rfloor> div 86400000)
      in (Fin (of_int d), Fin (of_int (m - 1)), Fin (of_int y)))"

definition refPlatform :: builtins where
  "refPlatform =
     \<lparr>toNumber = ref_toNumber, numberToString = ref_numberToString,
      localeCompare = ref_localeCompare, dateTime = ref_dateTime, dateFields = ref_dateFields\<rparr>"

section \<open>Saving and loading the schedule\<close>


subsection \<open>Plain objects\<close>







subsection \<open>\<open>JSON.stringify\<close>\<close>






subsection \<open>Local storage\<close>






subsection \<open>Reading back\<close>










subsection \<open>Notions of the specification\<close>



section \<open>Sample inputs for the concrete runs\<close>

definition sampleHeader :: "cell list" where
  "sampleHeader = [Str ''Datum'', Str ''Dag'', Str ''Tijdvak'', Str ''Kdh%'', Str ''TOTAL'', Str ''Dagcijfers'']"

text \<open>Two days of November; the first has two rows for the hour 20.\<close>

definition novemberGrid :: "cell list list" where
  "novemberGrid =
     [[Str ''Kijkcijfers''],
      sampleHeader,
      [Str ''02-11-2024'', Str ''zaterdag'', Str ''20:00-20:59'', Num 1, Num 10, Num 1000],
      [Str ''01-11-2024'', Str ''vrijdag'', Str ''20:00-20:59'', Num 1, Num 10, Num 2000],
      [Str ''01-11-2024'', Str ''vrijdag'', Str ''20:00-20:59'', Num 1, Num 25, Num 2000],
      [Str ''01-11-2024'', Str ''vrijdag'', Str ''21:00'', Num 1, Num (1 / 2), Num 2000]]"

text \<open>One day of December.\<close>

definition decemberGrid :: "cell list list" where
  "decemberGrid =
     [sampleHeader,
      [Str ''01-12-2024'', Str ''zondag'', Str ''20:00-20:59'', Num 1, Num 30, Num 1000],
      [Str ''01-12-2024'', Str ''zondag'', Str ''25-26'', Num 1, Num 7, Num 1000]]"




text \<open>A header row only, and a header row followed by a row whose day total is zero
  (the day is dropped after extraction).\<close>

definition headerOnlyGrid :: "cell list list" where
  "headerOnlyGrid = [[Str ''Datum'', Str ''Dag'', Str ''Tijdvak'']]"

definition zeroTotalGrid :: "cell list list" where
  "zeroTotalGrid =
     [sampleHeader,
      [Str ''01-11-2024'', Str ''vrijdag'', Str ''20:00-20:59'', Num 1, Num 25, Num 0],
      [Str ''01-11-2024'', Str ''vrijdag'', Str ''middag'', Num 1, Num 25, Num 2000]]"

text \<open>Two days with 24 hourly counts each.\<close>

definition sampleDayA :: DailyData where
  "sampleDayA =
     \<lparr>date = ''01-11-2024'', dayOfWeek = ''vrijdag'', totalViewers = Fin 2000,
      hourlyViewers = (filled 24 0)[20 := Some (Fin 300), 21 := Some (Fin 5)],
      hourlyPercentages = (filled 24 0)[20 := Some (Fin (3 / 20)), 21 := Some (Fin (1 / 400))]\<rparr>"

definition sampleDayB :: DailyData where
  "sampleDayB =
     \<lparr>date = ''01-12-2024'', dayOfWeek = ''zondag'', totalViewers = Fin 1000,
      hourlyViewers = (filled 24 0)[20 := Some (Fin 100)],
      hourlyPercentages = (filled 24 0)[20 := Some (Fin (1 / 10))]\<rparr>"










section \<open>Properties of the time-slot parser\<close>

lemma isDigit_digitVal: "isDigit c \<Longrightarrow> digitVal c \<le> 9"
  by (auto simp: isDigit_def digitVal_def)

lemma parseInt_two: "parseInt [a, b] = 10 * digitVal a + digitVal b"
  by (simp add: parseInt_def)

lemma parseInt_one: "parseInt [a] = digitVal a"
  by (simp add: parseInt_def)

lemma take2_eq: "2 \<le> length t \<Longrightarrow> take 2 t = [t ! 0, t ! 1]"
  by (cases t; cases "tl t") auto

lemma take1_eq: "1 \<le> length t \<Longrightarrow> take 1 t = [t ! 0]"
  by (cases t) auto

lemma parseInt_digits_le_99:
  assumes "g = [a, b] \<and> isDigit a \<and> isDigit b \<or> g = [a] \<and> isDigit a"
  shows "parseInt g \<le> 99"
  using assms isDigit_digitVal [of a] isDigit_digitVal [of b]
  by (auto simp: parseInt_two parseInt_one)

lemma standardFormat_Some: "standardFormat t = Some g \<Longrightarrow> g = [t ! 0, t ! 1] \<and> isDigit (t ! 0) \<and> isDigit (t ! 1)"
  using take2_eq [of t] by (auto simp: standardFormat_def split: if_splits)

lemma dashFormat_Some: "dashFormat t = Some g \<Longrightarrow> g = [t ! 0, t ! 1] \<and> isDigit (t ! 0) \<and> isDigit (t ! 1)"
  using take2_eq [of t] by (auto simp: dashFormat_def split: if_splits)

lemma simpleHourFormat_Some:
  "simpleHourFormat t = Some g \<Longrightarrow>
     g = [t ! 0, t ! 1] \<and> isDigit (t ! 0) \<and> isDigit (t ! 1) \<or> g = [t ! 0] \<and> isDigit (t ! 0)"
  using take2_eq [of t] take1_eq [of t] by (auto simp: simpleHourFormat_def split: if_splits)

lemma leadingHour_le_99: "leadingHour t = Some h \<Longrightarrow> h \<le> 99"
  unfolding leadingHour_def
  by (auto split: option.splits
      dest!: standardFormat_Some dashFormat_Some simpleHourFormat_Some
      intro: parseInt_digits_le_99)

text \<open>The shapes the three patterns accept, with the hour each extracts.\<close>

lemma leadingHour_standard:
  "isDigit a \<Longrightarrow> isDigit b \<Longrightarrow> isDigit c \<Longrightarrow> isDigit d \<Longrightarrow>
   leadingHour ([a, b] @ '':00-'' @ [c, d] @ '':59'') = Some (10 * digitVal a + digitVal b)"
  by (simp add: leadingHour_def standardFormat_def parseInt_two)

lemma leadingHour_dash:
  "isDigit a \<Longrightarrow> isDigit b \<Longrightarrow> isDigit c \<Longrightarrow> isDigit d \<Longrightarrow>
   leadingHour ([a, b] @ ''-'' @ [c, d]) = Some (10 * digitVal a + digitVal b)"
  by (simp add: leadingHour_def standardFormat_def dashFormat_def parseInt_two)

lemma leadingHour_simple2:
  "isDigit a \<Longrightarrow> isDigit b \<Longrightarrow> leadingHour ([a, b] @ '':00'') = Some (10 * digitVal a + digitVal b)"
  by (simp add: leadingHour_def standardFormat_def dashFormat_def simpleHourFormat_def parseInt_two isDigit_def)

lemma leadingHour_simple1:
  "isDigit a \<Longrightarrow> leadingHour ([a] @ '':00'') = Some (digitVal a)"
  by (simp add: leadingHour_def standardFormat_def dashFormat_def simpleHourFormat_def parseInt_one)

lemma leadingHour_nonempty: "leadingHour t = Some h \<Longrightarrow> t \<noteq> []"
  by (auto simp: leadingHour_def standardFormat_def dashFormat_def simpleHourFormat_def
      split: option.splits if_splits)

text \<open>
  C4 (amended). The time-slot parser returns \<open>-1\<close> (NOT_FOUND) exactly when none of its
  three patterns matches. When a pattern matches and extracts the leading hour \<open>h\<close>
  (always at most 99, since at most two digits are captured), it returns \<open>h mod 24\<close> for
  \<open>24 \<le> h \<le> 26\<close> and \<open>h\<close> unchanged for every other \<open>h\<close>: for \<open>h\<close> in \<open>[0,23]\<close>, but also
  for \<open>h\<close> in \<open>[27,99]\<close>, where no range check rejects it. So the result is \<open>-1\<close>, an hour
  in \<open>[0,23]\<close>, or an unnormalised value in \<open>[27,99]\<close>.
\<close>

theorem extractHourFromTimeSlot_result:
  "(leadingHour t = None \<longrightarrow> extractHourFromTimeSlot t = - 1)
   \<and> (\<forall>h. leadingHour t = Some h \<longrightarrow>
          (24 \<le> h \<and> h \<le> 26 \<longrightarrow> extractHourFromTimeSlot t = int (h mod 24))
        \<and> (h \<le> 23 \<longrightarrow> extractHourFromTimeSlot t = int h)
        \<and> (27 \<le> h \<longrightarrow> h \<le> 99 \<and> extractHourFromTimeSlot t = int h))
   \<and> (extractHourFromTimeSlot t = - 1
        \<or> (0 \<le> extractHourFromTimeSlot t \<and> extractHourFromTimeSlot t \<le> 23)
        \<or> (27 \<le> extractHourFromTimeSlot t \<and> extractHourFromTimeSlot t \<le> 99))"
proof (cases "leadingHour t")
  case None
  then show ?thesis by (simp add: extractHourFromTimeSlot_def)
next
  case (Some h)
  have ne: "t \<noteq> []" using Some by (rule leadingHour_nonempty)
  have le: "h \<le> 99" using Some by (rule leadingHour_le_99)
  have r: "extractHourFromTimeSlot t = (if 24 \<le> h \<and> h \<le> 26 then int h mod 24 else int h)"
    using ne Some by (simp add: extractHourFromTimeSlot_def Let_def)
  consider "h \<le> 23" | "24 \<le> h \<and> h \<le> 26" | "27 \<le> h" by linarith
  then show ?thesis
  proof cases
    case 1
    then show ?thesis using Some r by simp
  next
    case 2
    then have "int h mod 24 = int (h mod 24)" by (simp add: zmod_int)
    moreover have "h mod 24 \<le> 23" by simp
    ultimately show ?thesis using Some r 2 by auto
  next
    case 3
    then show ?thesis using Some r le by simp
  qed
qed

theorem extractHourFromTimeSlot_result_witness:
  "leadingHour ''25:00-25:59'' = Some 25 \<and> extractHourFromTimeSlot ''25:00-25:59'' = 1
   \<and> leadingHour ''07:00'' = Some 7 \<and> extractHourFromTimeSlot ''07:00'' = 7
   \<and> leadingHour ''31-32'' = Some 31 \<and> extractHourFromTimeSlot ''31-32'' = 31
   \<and> leadingHour ''14'' = None \<and> extractHourFromTimeSlot ''14'' = - 1"
proof -
  have a: "leadingHour ''25:00-25:59'' = Some 25"
    and b: "leadingHour ''07:00'' = Some 7"
    and c: "leadingHour ''31-32'' = Some 31"
    and d: "leadingHour ''14'' = None"
    by code_simp+
  show ?thesis
    using a b c d
      extractHourFromTimeSlot_result [of "''25:00-25:59''"]
      extractHourFromTimeSlot_result [of "''07:00''"]
      extractHourFromTimeSlot_result [of "''31-32''"]
      extractHourFromTimeSlot_result [of "''14''"]
    by simp
qed

text \<open>The claim as stated fails: the token \<open>27-03\<close> has the leading hour 27, outside
  \<open>[0,26]\<close>, and the parser returns 27, which is neither NOT_FOUND nor an hour in \<open>[0,23]\<close>.\<close>

theorem extractHourFromTimeSlot_out_of_range:
  "leadingHour ''27-03'' = Some 27 \<and> extractHourFromTimeSlot ''27-03'' = 27"
  by code_simp

section \<open>Arrays and sorting: basic facts\<close>

lemma arr_get_set: "arr_get (arr_set a i v) k = (if k = i then v else arr_get a k)"
  by (auto simp: arr_get_def arr_set_def nth_append nth_Cons' split: option.splits)


lemma arr_get_filled: "arr_get (filled n v) k = (if k < n then v else NaN)"
  by (simp add: arr_get_def filled_def)

lemma arr_get_NaN_slot: "arr_get a k = NaN \<Longrightarrow> k < length a \<Longrightarrow> a ! k = None \<or> a ! k = Some NaN"
  by (auto simp: arr_get_def split: option.splits)

lemma slotsPresent_nth: "slotsPresent a \<Longrightarrow> h < 24 \<Longrightarrow> h < length a \<and> a ! h \<noteq> None"
  by (auto simp: slotsPresent_def list_all_length)

lemma slotsPresent_slotValue: "slotsPresent a \<Longrightarrow> h < 24 \<Longrightarrow> slotValue a h = arr_get a h"
  using slotsPresent_nth [of a h] by (auto simp: slotValue_def arr_get_def split: option.splits)

lemma slotsPresent_filled: "slotsPresent (filled 24 v)"
  by (simp add: slotsPresent_def filled_def list_all_length)

lemma slotsPresent_arr_set: "slotsPresent a \<Longrightarrow> slotsPresent (arr_set a i v)"
  by (auto simp: slotsPresent_def arr_set_def list_all_length nth_list_update nth_append)

lemma NaN_plus [simp]: "NaN + (x :: number) = NaN" "x + NaN = NaN"
  by (cases x; simp add: plus_number_def)+

lemma Fin_plus [simp]: "Fin a + Fin b = Fin (a + b)"
  by (simp add: plus_number_def)

lemma set_insertBy: "set (insertBy cmp x ys) = insert x (set ys)"
  by (induction ys) auto

lemma set_sortBy: "set (sortBy cmp xs) = set xs"
  by (induction xs) (simp_all add: sortBy_def set_insertBy)

lemma length_insertBy: "length (insertBy cmp x ys) = Suc (length ys)"
  by (induction ys) auto

lemma length_sortBy: "length (sortBy cmp xs) = length xs"
  by (induction xs) (simp_all add: sortBy_def length_insertBy)

lemma sortBy_two: "sortBy cmp [a, b] = [a, b] \<or> sortBy cmp [a, b] = [b, a]"
  by (simp add: sortBy_def)

section \<open>The hourly loops\<close>

lemma forEachFrom_get:
  "arr_get (forEachFrom i (\<lambda>v h t. arr_set t h (g (arr_get t h) v)) xs t) k =
     (if i \<le> k \<and> k < i + length xs
      then (case xs ! (k - i) of None \<Rightarrow> arr_get t k | Some v \<Rightarrow> g (arr_get t k) v)
      else arr_get t k)"
proof (induction xs arbitrary: i t)
  case Nil
  then show ?case by auto
next
  case (Cons x xs)
  note IH = Cons.IH [of "Suc i"]
  have idx: "Suc i \<le> k \<Longrightarrow> (x # xs) ! (k - i) = xs ! (k - Suc i)"
    by (simp add: nth_Cons' Suc_diff_le)
  consider "k < i" | "k = i" | "Suc i \<le> k" by linarith
  then show ?case
  proof cases
    case 1
    then show ?thesis by (cases x) (simp_all add: IH arr_get_set)
  next
    case 2
    have "arr_get (forEachFrom (Suc i) (\<lambda>v h t. arr_set t h (g (arr_get t h) v)) xs t') k = arr_get t' k" for t'
      using 2 IH [of t'] by simp
    then show ?thesis by (cases x) (simp_all add: arr_get_set 2 [symmetric])
  next
    case 3
    then show ?thesis using idx by (cases x) (auto simp: IH arr_get_set split: option.splits)
  qed
qed

lemma pvd_total_forEach:
  "totalAcc (forEachFrom i pvd_addViewers xs acc) =
     forEachFrom i (\<lambda>v h t. arr_set t h (arr_get t h + v)) xs (totalAcc acc)"
  by (induction xs arbitrary: i acc) (auto simp: pvd_addViewers_def split: option.splits)

lemma pvd_average_forEach:
  "averageAcc (forEachFrom i pvd_addViewers xs acc) =
     forEachFrom i (\<lambda>v h t. arr_set t h (arr_get t h + v)) xs (averageAcc acc)"
  by (induction xs arbitrary: i acc) (auto simp: pvd_addViewers_def split: option.splits)

lemma pvd_max_forEach:
  "maxAcc (forEachFrom i pvd_addViewers xs acc) =
     forEachFrom i (\<lambda>v h t. arr_set t h (mathMax (arr_get t h) v)) xs (maxAcc acc)"
  by (induction xs arbitrary: i acc) (auto simp: pvd_addViewers_def split: option.splits)

lemma forEach_plus_get:
  "arr_get (forEach (\<lambda>v h t. arr_set t h (arr_get t h + v)) xs t) k = arr_get t k + slotValue xs k"
  by (auto simp: forEach_def forEachFrom_get [where g = "(+)"] slotValue_def zero_number_def [symmetric]
      split: option.splits)

lemma pvd_accumulate_total_gen:
  "arr_get (totalAcc (fold (\<lambda>day acc. forEach pvd_addViewers (hourlyViewers day) acc) ds acc)) k =
     arr_get (totalAcc acc) k + (\<Sum>d\<leftarrow>ds. slotValue (hourlyViewers d) k)"
proof (induction ds arbitrary: acc)
  case Nil
  then show ?case by simp
next
  case (Cons d ds)
  have "arr_get (totalAcc (forEach pvd_addViewers (hourlyViewers d) acc)) k =
          arr_get (totalAcc acc) k + slotValue (hourlyViewers d) k"
    using forEach_plus_get [of "hourlyViewers d" "totalAcc acc" k]
    by (simp add: forEach_def pvd_total_forEach)
  then show ?case by (simp add: Cons.IH add.assoc)
qed

lemma pvd_accumulate_average_gen:
  "arr_get (averageAcc (fold (\<lambda>day acc. forEach pvd_addViewers (hourlyViewers day) acc) ds acc)) k =
     arr_get (averageAcc acc) k + (\<Sum>d\<leftarrow>ds. slotValue (hourlyViewers d) k)"
proof (induction ds arbitrary: acc)
  case Nil
  then show ?case by simp
next
  case (Cons d ds)
  have "arr_get (averageAcc (forEach pvd_addViewers (hourlyViewers d) acc)) k =
          arr_get (averageAcc acc) k + slotValue (hourlyViewers d) k"
    using forEach_plus_get [of "hourlyViewers d" "averageAcc acc" k]
    by (simp add: forEach_def pvd_average_forEach)
  then show ?case by (simp add: Cons.IH add.assoc)
qed

lemma pvd_total_get:
  "arr_get (totalAcc (pvd_accumulate ds)) k =
     (if k < 24 then (\<Sum>d\<leftarrow>ds. slotValue (hourlyViewers d) k) else NaN)"
  by (simp add: pvd_accumulate_def pvd_accumulate_total_gen arr_get_filled)

lemma pvd_averageAcc_get:
  "arr_get (averageAcc (pvd_accumulate ds)) k = arr_get (totalAcc (pvd_accumulate ds)) k"
  by (simp add: pvd_accumulate_def pvd_accumulate_total_gen pvd_accumulate_average_gen arr_get_filled)

lemma fold_totalViewers_gen:
  "fold (\<lambda>day sum. sum + DailyData.totalViewers day) ds a = a + (\<Sum>d\<leftarrow>ds. DailyData.totalViewers d)"
  by (induction ds arbitrary: a) (simp_all add: add.assoc)

lemma fold_totalViewers:
  "fold (\<lambda>day sum. sum + DailyData.totalViewers day) ds 0 = (\<Sum>d\<leftarrow>ds. DailyData.totalViewers d)"
  by (simp add: fold_totalViewers_gen)

lemma agg_addViewers_eq: "agg_addViewers = pvd_addViewers"
  by (intro ext) (simp add: agg_addViewers_def pvd_addViewers_def)

lemma agg_accumulate_eq: "agg_accumulate = pvd_accumulate"
  by (intro ext) (simp add: agg_accumulate_def pvd_accumulate_def agg_addViewers_eq)

lemma agg_average_eq: "agg_average = pvd_average"
  by (intro ext) (simp add: agg_average_def pvd_average_def)

lemma agg_peakHour_eq: "agg_peakHour = pvd_peakHour"
  by (intro ext) (simp add: agg_peakHour_def pvd_peakHour_def agg_peakHoursIndices_def pvd_peakHoursIndices_def)

lemma agg_peakDay_eq: "ds \<noteq> [] \<Longrightarrow> agg_peakDay ds = pvd_peakDay ds"
  by (simp add: agg_peakDay_def pvd_peakDay_def)

section \<open>The peak hour\<close>





lemma peakIndices_lt_length: "h \<in> peakIndices tot \<Longrightarrow> h < length tot"
  by (auto simp: peakIndices_def isPeakIndex_def split: option.splits)

lemma peakIndices_code: "peakIndices tot = set (filter (isPeakIndex tot) [0..<length tot])"
  using peakIndices_lt_length [of _ tot] by (auto simp: peakIndices_def)

lemma peakIndices_not_NaN: "h \<in> peakIndices tot \<Longrightarrow> arr_get tot h \<noteq> NaN"
  by (auto simp: peakIndices_def isPeakIndex_def arr_get_def strictEq_def split: option.splits)


lemma peakIndices_accumulate: "peakIndices (totalAcc (pvd_accumulate ds)) \<subseteq> {..<24}"
proof
  fix h assume "h \<in> peakIndices (totalAcc (pvd_accumulate ds))"
  then have "arr_get (totalAcc (pvd_accumulate ds)) h \<noteq> NaN" by (rule peakIndices_not_NaN)
  then show "h \<in> {..<24}" by (simp add: pvd_total_get split: if_splits)
qed

lemma produced_shape:
  assumes "processViewerData P g l = Inr s \<or> (aggregateMonthsData P (Some ms) = Inr s \<and> 2 \<le> length ms)"
  shows "totalViewersPerHour s = totalAcc (pvd_accumulate (days s))"
    and "peakHour s = pvd_peakHour (totalViewersPerHour s)"
    and "totalViewers s = (\<Sum>d\<leftarrow>days s. DailyData.totalViewers d)"
    and "averageHourlyViewers s = pvd_average (length (days s)) (averageAcc (pvd_accumulate (days s)))"
    and "maxViewersPerHour s = maxAcc (pvd_accumulate (days s))"
  using assms
  by (auto simp: processViewerData_def monthSummary_def aggregateMonthsData_def Let_def fold_totalViewers
      agg_accumulate_eq agg_average_eq agg_peakHour_eq split: if_splits)

section \<open>Invariants of the extracted days and of the union of months\<close>

lemma map_values_set: "set (map_values (map_set k v m)) \<subseteq> insert v (set (map_values m))"
  unfolding map_values_def map_set_def by (induction m) auto

lemma map_get_values: "map_get m k = Some d \<Longrightarrow> d \<in> set (map_values m)"
  unfolding map_get_def map_values_def by (force dest: map_of_SomeD)

lemma processRow_slots:
  assumes "\<forall>d\<in>set (map_values m). slotsPresent (hourlyViewers d)"
  shows "\<forall>d\<in>set (map_values (processRow P c row m)). slotsPresent (hourlyViewers d)"
proof (cases "rowSlot P c row")
  case None
  then show ?thesis using assms by (simp add: processRow_def)
next
  case (Some slot)
  obtain dateString hour where slot: "slot = (dateString, hour)" by (cases slot)
  define fresh where "fresh = \<lparr>date = dateString, dayOfWeek = cellString P (cell_at row 1),
       totalViewers = rowDailyViewers P c row, hourlyViewers = filled 24 0, hourlyPercentages = filled 24 0\<rparr>"
  define m1 where "m1 = (if \<not> map_has m dateString then map_set dateString fresh m else m)"
  have m1: "\<forall>d\<in>set (map_values m1). slotsPresent (hourlyViewers d)"
  proof
    fix d assume "d \<in> set (map_values m1)"
    then have "d = fresh \<or> d \<in> set (map_values m)"
      using map_values_set [of dateString fresh m] by (auto simp: m1_def split: if_splits)
    then show "slotsPresent (hourlyViewers d)"
      using assms by (auto simp: fresh_def slotsPresent_filled)
  qed
  have run: "processRow P c row m =
      (case map_get m1 dateString of None \<Rightarrow> m1
       | Some dayData \<Rightarrow> map_set dateString
           (dayData\<lparr>hourlyViewers := arr_set (hourlyViewers dayData) hour (rowHourlyViewers P c row),
                    hourlyPercentages := arr_set (hourlyPercentages dayData) hour (rowPercent P c row)\<rparr>) m1)"
    using Some slot by (auto simp: processRow_def m1_def fresh_def Let_def split: option.splits)
  show ?thesis
  proof (cases "map_get m1 dateString")
    case None
    then show ?thesis using m1 run by simp
  next
    case (Some dayData)
    have old: "slotsPresent (hourlyViewers dayData)"
      using m1 map_get_values [OF Some] by blast
    show ?thesis
    proof
      fix d assume "d \<in> set (map_values (processRow P c row m))"
      then have "d = dayData\<lparr>hourlyViewers := arr_set (hourlyViewers dayData) hour (rowHourlyViewers P c row),
                    hourlyPercentages := arr_set (hourlyPercentages dayData) hour (rowPercent P c row)\<rparr>
                 \<or> d \<in> set (map_values m1)"
        using map_values_set [of dateString _ m1] unfolding run Some by auto
      then show "slotsPresent (hourlyViewers d)"
        using m1 old by (auto simp: slotsPresent_arr_set)
    qed
  qed
qed

lemma fold_processRow_slots:
  assumes "\<forall>d\<in>set (map_values m). slotsPresent (hourlyViewers d)"
  shows "\<forall>d\<in>set (map_values (fold (processRow P c) rows m)). slotsPresent (hourlyViewers d)"
  using assms
proof (induction rows arbitrary: m)
  case Nil
  then show ?case by simp
next
  case (Cons row rows)
  show ?case
    using Cons.IH [OF processRow_slots [OF Cons.prems]] by simp
qed

lemma extractDays_slots: "d \<in> set (extractDays P c rows) \<Longrightarrow> slotsPresent (hourlyViewers d)"
  using fold_processRow_slots [of "[]" P c rows]
  by (auto simp: extractDays_def set_sortBy map_values_def)

lemma processViewerData_slots:
  "processViewerData P g l = Inr s \<Longrightarrow> d \<in> set (days s) \<Longrightarrow> slotsPresent (hourlyViewers d)"
  by (auto simp: processViewerData_def monthSummary_def Let_def extractDays_slots split: if_splits)

lemma unionDays_values_gen:
  "set (map_values (fold (\<lambda>monthData allDaysMap. fold (\<lambda>day m. map_set (date day) day m) (days monthData) allDaysMap) ms m0))
     \<subseteq> set (map_values m0) \<union> (\<Union>m\<in>set ms. set (days m))"
proof (induction ms arbitrary: m0)
  case Nil
  then show ?case by simp
next
  case (Cons mo ms)
  have inner: "set (map_values (fold (\<lambda>day m. map_set (date day) day m) ds m1)) \<subseteq> set (map_values m1) \<union> set ds" for ds m1
  proof (induction ds arbitrary: m1)
    case Nil
    then show ?case by simp
  next
    case (Cons d ds)
    show ?case
      using Cons.IH [of "map_set (date d) d m1"] map_values_set [of "date d" d m1] by auto
  qed
  show ?case
    using Cons.IH [of "fold (\<lambda>day m. map_set (date day) day m) (days mo) m0"] inner [of "days mo" m0]
    by auto
qed

lemma unionDays_values: "set (map_values (unionDays ms)) \<subseteq> (\<Union>m\<in>set ms. set (days m))"
  using unionDays_values_gen [of ms "[]"] by (simp add: unionDays_def map_values_def)

lemma totalsInvariant_accumulate:
  assumes shape: "totalViewersPerHour s = totalAcc (pvd_accumulate (days s))"
    and tv: "totalViewers s = (\<Sum>d\<leftarrow>days s. DailyData.totalViewers d)"
    and slots: "\<And>d. d \<in> set (days s) \<Longrightarrow> slotsPresent (hourlyViewers d)"
  shows "totalsInvariant s"
proof -
  have "(\<Sum>d\<leftarrow>days s. slotValue (hourlyViewers d) h) = (\<Sum>d\<leftarrow>days s. arr_get (hourlyViewers d) h)" if "h < 24" for h
    using slots that by (intro arg_cong [where f = sum_list] map_cong) (auto simp: slotsPresent_slotValue)
  then show ?thesis
    unfolding totalsInvariant_def using tv by (simp add: shape pvd_total_get)
qed








lemma foldl_mathMax_attained:
  "(\<And>x. x \<in> set (a # xs) \<Longrightarrow> \<exists>r. x = Fin r) \<Longrightarrow>
   \<exists>m. foldl mathMax a xs = Fin m \<and> Fin m \<in> set (a # xs)"
proof (induction xs arbitrary: a)
  case Nil
  then show ?case by auto
next
  case (Cons x xs)
  obtain p q where pq: "a = Fin p" "x = Fin q" using Cons.prems by (metis list.set_intros)
  have "\<exists>m. foldl mathMax (mathMax a x) xs = Fin m \<and> Fin m \<in> set (mathMax a x # xs)"
    using Cons.prems pq by (intro Cons.IH) (auto simp: mathMax_def)
  moreover have "mathMax a x = a \<or> mathMax a x = x" using pq by (auto simp: mathMax_def max_def)
  ultimately show ?case by auto
qed

lemma peakIndices_nonempty:
  assumes len: "length tot = 24" and fin: "\<And>h. h < 24 \<Longrightarrow> \<exists>r. tot ! h = Some (Fin r)"
  shows "peakIndices tot \<noteq> {}"
proof -
  let ?vs = "map (\<lambda>x. case x of None \<Rightarrow> NaN | Some v \<Rightarrow> v) tot"
  have vs: "\<exists>r. x = Fin r" if "x \<in> set ?vs" for x
  proof -
    from that obtain h where "h < length tot" "x = (case tot ! h of None \<Rightarrow> NaN | Some v \<Rightarrow> v)"
      by (auto simp: in_set_conv_nth)
    then show ?thesis using fin [of h] len by auto
  qed
  obtain v0 rest where split: "?vs = v0 # rest" using len by (cases ?vs) auto
  obtain m where m: "foldl mathMax v0 rest = Fin m" "Fin m \<in> set (v0 # rest)"
    using foldl_mathMax_attained [of v0 rest] vs split by metis
  have sm: "spreadMax tot = Some (Fin m)" using split m(1) by (simp add: spreadMax_def)
  from m(2) split obtain h where h: "h < length tot" "?vs ! h = Fin m"
    by (metis in_set_conv_nth length_map)
  then have "tot ! h = Some (Fin m)" using fin [of h] len by auto
  then have "isPeakIndex tot h" using h(1) sm by (simp add: isPeakIndex_def strictEq_def)
  then show ?thesis by (auto simp: peakIndices_def)
qed

section \<open>The row loop: the last row of a slot decides its value\<close>

lemma processViewerData_days:
  "processViewerData P g l = Inr s \<Longrightarrow> days s = extractDays P (gridColumns g) (dataRows g)"
  by (auto simp: processViewerData_def monthSummary_def Let_def gridColumns_def dataRows_def split: if_splits)

lemma processRow_skip: "rowSlot P c r = None \<Longrightarrow> processRow P c r m = m"
  by (simp add: processRow_def)

lemma processRow_map_of:
  assumes "rowSlot P c r = Some (d, h)"
  shows "\<exists>base. (map_of m d = Some base \<or> (map_of m d = None \<and> date base = d))
           \<and> map_of (processRow P c r m) =
               (map_of m)(d \<mapsto> base\<lparr>hourlyViewers := arr_set (hourlyViewers base) h (rowHourlyViewers P c r),
                                   hourlyPercentages := arr_set (hourlyPercentages base) h (rowPercent P c r)\<rparr>)"
proof (cases "map_of m d")
  case None
  let ?fresh = "\<lparr>date = d, dayOfWeek = cellString P (cell_at r 1), totalViewers = rowDailyViewers P c r,
                  hourlyViewers = filled 24 0, hourlyPercentages = filled 24 0\<rparr>"
  have "map_of (processRow P c r m) =
               (map_of m)(d \<mapsto> ?fresh\<lparr>hourlyViewers := arr_set (hourlyViewers ?fresh) h (rowHourlyViewers P c r),
                                   hourlyPercentages := arr_set (hourlyPercentages ?fresh) h (rowPercent P c r)\<rparr>)"
    using assms None
    by (simp add: processRow_def map_has_def map_get_def map_set_def update_conv')
  then show ?thesis using None by (intro exI [of _ ?fresh]) simp
next
  case (Some base)
  have "map_of (processRow P c r m) =
               (map_of m)(d \<mapsto> base\<lparr>hourlyViewers := arr_set (hourlyViewers base) h (rowHourlyViewers P c r),
                                   hourlyPercentages := arr_set (hourlyPercentages base) h (rowPercent P c r)\<rparr>)"
    using assms Some
    by (simp add: processRow_def map_has_def map_get_def map_set_def update_conv')
  then show ?thesis using Some by (intro exI [of _ base]) simp
qed

lemma processRow_distinct: "distinct (map fst m) \<Longrightarrow> distinct (map fst (processRow P c r m))"
  by (auto simp: processRow_def map_set_def map_has_def map_get_def distinct_update Let_def
      split: option.splits)

lemma keyed_map_of: "keyed m \<longleftrightarrow> distinct (map fst m) \<and> (\<forall>k day. map_of m k = Some day \<longrightarrow> date day = k)"
  unfolding keyed_def by (auto dest: map_of_SomeD)

lemma processRow_keyed:
  assumes "keyed m"
  shows "keyed (processRow P c r m)"
proof (cases "rowSlot P c r")
  case None
  then show ?thesis using assms by (simp add: processRow_skip)
next
  case (Some slot)
  obtain d h where slot: "rowSlot P c r = Some (d, h)" using Some by (cases slot) auto
  obtain base where base: "map_of m d = Some base \<or> (map_of m d = None \<and> date base = d)"
    and upd: "map_of (processRow P c r m) =
               (map_of m)(d \<mapsto> base\<lparr>hourlyViewers := arr_set (hourlyViewers base) h (rowHourlyViewers P c r),
                                   hourlyPercentages := arr_set (hourlyPercentages base) h (rowPercent P c r)\<rparr>)"
    using processRow_map_of [OF slot, of m] by blast
  have "date base = d" using base assms by (auto simp: keyed_map_of)
  then show ?thesis
    using assms processRow_distinct [of m P c r]
    unfolding keyed_map_of upd by (auto split: if_splits)
qed

lemma fold_processRow_keyed: "keyed m \<Longrightarrow> keyed (fold (processRow P c) rows m)"
  by (induction rows arbitrary: m) (simp_all add: processRow_keyed)

lemma processRow_writes:
  assumes "rowSlot P c r = Some (d, h)"
  shows "holds (processRow P c r m) d h (rowHourlyViewers P c r) (rowPercent P c r)"
  using processRow_map_of [OF assms, of m] unfolding holds_def by (auto simp: arr_get_set)

lemma processRow_keeps:
  assumes "holds m d h v p" and "rowSlot P c r \<noteq> Some (d, h)"
  shows "holds (processRow P c r m) d h v p"
proof (cases "rowSlot P c r")
  case None
  then show ?thesis using assms by (simp add: processRow_skip)
next
  case (Some slot)
  obtain d' h' where slot: "rowSlot P c r = Some (d', h')" using Some by (cases slot) auto
  obtain base where base: "map_of m d' = Some base \<or> (map_of m d' = None \<and> date base = d')"
    and upd: "map_of (processRow P c r m) =
               (map_of m)(d' \<mapsto> base\<lparr>hourlyViewers := arr_set (hourlyViewers base) h' (rowHourlyViewers P c r),
                                   hourlyPercentages := arr_set (hourlyPercentages base) h' (rowPercent P c r)\<rparr>)"
    using processRow_map_of [OF slot, of m] by blast
  show ?thesis
  proof (cases "d' = d")
    case False
    then show ?thesis using assms(1) unfolding holds_def upd by simp
  next
    case True
    then have "h' \<noteq> h" using assms(2) slot by auto
    then show ?thesis
      using assms(1) base True unfolding holds_def upd by (auto simp: arr_get_set)
  qed
qed

lemma fold_processRow_keeps:
  "holds m d h v p \<Longrightarrow> \<forall>r\<in>set rows. rowSlot P c r \<noteq> Some (d, h) \<Longrightarrow>
   holds (fold (processRow P c) rows m) d h v p"
  by (induction rows arbitrary: m) (simp_all add: processRow_keeps)

lemma last_write_wins:
  assumes slot: "rowSlot P c r = Some (d, h)"
    and later: "\<forall>r'\<in>set post. rowSlot P c r' \<noteq> Some (d, h)"
    and day: "day \<in> set (extractDays P c (pre @ r # post))" "date day = d"
  shows "arr_get (hourlyViewers day) h = rowHourlyViewers P c r
       \<and> arr_get (hourlyPercentages day) h = rowPercent P c r"
proof -
  define m where "m = fold (processRow P c) (pre @ r # post) []"
  have "holds (processRow P c r (fold (processRow P c) pre [])) d h (rowHourlyViewers P c r) (rowPercent P c r)"
    using slot by (rule processRow_writes)
  then have h: "holds m d h (rowHourlyViewers P c r) (rowPercent P c r)"
    unfolding m_def using later by (simp add: fold_processRow_keeps)
  have k: "keyed m" unfolding m_def by (intro fold_processRow_keyed) (simp add: keyed_def)
  have "day \<in> snd ` set m"
    using day(1) by (auto simp: extractDays_def set_sortBy map_values_def m_def)
  then obtain key where "(key, day) \<in> set m" by force
  then have "map_of m key = Some day" using k by (simp add: keyed_def)
  moreover from this have "key = d" using k day(2) by (auto simp: keyed_map_of)
  ultimately show ?thesis using h by (auto simp: holds_def)
qed

section \<open>The totals invariant and the peak hour (claims C1 and C2)\<close>

text \<open>
  C1. Every summary that the month aggregation (\<open>processViewerData\<close>) returns satisfies
  the totals invariant: the grand total is the sum of its days' totals, and for every
  hour \<open>h\<close> in \<open>[0,23]\<close> the hourly total is the sum over its days of that hour's viewer
  count. The same holds for every summary that the multi-period aggregation
  (\<open>aggregateMonthsData\<close>) returns, given input days with 24 hourly slots each (the
  data-model invariant); a single input summary is returned as it is, so there it is
  the input that has to satisfy the invariant.
\<close>

theorem totals_invariant:
  "(processViewerData P g l = Inr s \<longrightarrow> totalsInvariant s)
   \<and> (aggregateMonthsData P (Some ms) = Inr s'
        \<and> (\<forall>m\<in>set ms. \<forall>d\<in>set (days m). slotsPresent (hourlyViewers d))
        \<and> (length ms = 1 \<longrightarrow> totalsInvariant (ms ! 0))
       \<longrightarrow> totalsInvariant s')"
proof (intro conjI impI)
  assume run: "processViewerData P g l = Inr s"
  show "totalsInvariant s"
    using produced_shape(1,3) [of P g l s, OF disjI1 [OF run]] processViewerData_slots [OF run]
    by (intro totalsInvariant_accumulate)
next
  assume asm: "aggregateMonthsData P (Some ms) = Inr s'
        \<and> (\<forall>m\<in>set ms. \<forall>d\<in>set (days m). slotsPresent (hourlyViewers d))
        \<and> (length ms = 1 \<longrightarrow> totalsInvariant (ms ! 0))"
  then have run: "aggregateMonthsData P (Some ms) = Inr s'"
    and slots: "\<And>m d. m \<in> set ms \<Longrightarrow> d \<in> set (days m) \<Longrightarrow> slotsPresent (hourlyViewers d)"
    and single: "length ms = 1 \<Longrightarrow> totalsInvariant (ms ! 0)"
    by auto
  have ne: "length ms \<noteq> 0" using run by (auto simp: aggregateMonthsData_def)
  show "totalsInvariant s'"
  proof (cases "length ms = 1")
    case True
    then have "s' = ms ! 0" using run by (simp add: aggregateMonthsData_def)
    then show ?thesis using single [OF True] by simp
  next
    case False
    then have two: "2 \<le> length ms" using ne by (cases ms; cases "tl ms") auto
    have days: "days s' = sortBy (compareDates P) (map_values (unionDays ms))"
      using run False ne by (auto simp: aggregateMonthsData_def Let_def)
    have "slotsPresent (hourlyViewers d)" if "d \<in> set (days s')" for d
      using that unionDays_values [of ms] slots unfolding days set_sortBy by blast
    then show ?thesis
      using produced_shape(1,3) [of P g l s' ms, OF disjI2 [OF conjI [OF run two]]]
      by (intro totalsInvariant_accumulate)
  qed
qed

theorem totals_invariant_witness:
  "(case processViewerData refPlatform novemberGrid ''November 2024'' of Inl e \<Rightarrow> False | Inr a \<Rightarrow>
     (case processViewerData refPlatform decemberGrid ''December 2024'' of Inl e \<Rightarrow> False | Inr b \<Rightarrow>
       (case aggregateMonthsData refPlatform (Some [a, b]) of Inl e \<Rightarrow> False | Inr s \<Rightarrow>
          totalsInvariant a \<and> totalsInvariant s
          \<and> length (days a) = 2 \<and> totalViewers a = Fin 3000 \<and> arr_get (totalViewersPerHour a) 20 = Fin 600
          \<and> length (days s) = 3 \<and> totalViewers s = Fin 4000 \<and> arr_get (totalViewersPerHour s) 20 = Fin 900)))"
proof -
  have "(case processViewerData refPlatform novemberGrid ''November 2024'' of Inl e \<Rightarrow> False | Inr a \<Rightarrow>
     (case processViewerData refPlatform decemberGrid ''December 2024'' of Inl e \<Rightarrow> False | Inr b \<Rightarrow>
       (case aggregateMonthsData refPlatform (Some [a, b]) of Inl e \<Rightarrow> False | Inr s \<Rightarrow>
          length (days a) = 2 \<and> totalViewers a = Fin 3000 \<and> arr_get (totalViewersPerHour a) 20 = Fin 600
          \<and> length (days s) = 3 \<and> totalViewers s = Fin 4000 \<and> arr_get (totalViewersPerHour s) 20 = Fin 900)))"
    by code_simp
  then obtain a b s where a: "processViewerData refPlatform novemberGrid ''November 2024'' = Inr a"
    and b: "processViewerData refPlatform decemberGrid ''December 2024'' = Inr b"
    and s: "aggregateMonthsData refPlatform (Some [a, b]) = Inr s"
    and vals: "length (days a) = 2 \<and> totalViewers a = Fin 3000 \<and> arr_get (totalViewersPerHour a) 20 = Fin 600
          \<and> length (days s) = 3 \<and> totalViewers s = Fin 4000 \<and> arr_get (totalViewersPerHour s) 20 = Fin 900"
    by (auto split: sum.splits)
  have ia: "totalsInvariant a"
    using totals_invariant [of refPlatform novemberGrid "''November 2024''" a] a by simp
  have slots: "\<forall>m\<in>set [a, b]. \<forall>d\<in>set (days m). slotsPresent (hourlyViewers d)"
    using processViewerData_slots [OF a] processViewerData_slots [OF b] by auto
  have "totalsInvariant s"
    using totals_invariant [of refPlatform novemberGrid "''November 2024''" a "[a, b]" s] s slots by simp
  then show ?thesis using ia vals by (simp add: a b s)
qed











section \<open>The extraction of days (claims C5 and C6)\<close>

text \<open>
  C5 (what the code does). A grid with a header row whose rows leave no day returns a
  summary with no days and total 0, and its peak hour is 23, not 0: all 24 hourly
  totals are 0, so every hour ties at the maximum and the evening preference selects
  the latest one. The default 0 is reached only when no hour equals the maximum.
\<close>

theorem no_days_summary:
  assumes "processViewerData P g l = Inr s" and "days s = []"
  shows "totalViewers s = Fin 0 \<and> peakHour s = 23"
proof -
  have "s = monthSummary l (days s)"
    using assms(1) by (auto simp: processViewerData_def monthSummary_def Let_def split: if_splits)
  then have s: "s = monthSummary l []" using assms(2) by simp
  have peak: "pvd_peakHour (totalAcc (pvd_accumulate [])) = 23" by code_simp
  have "totalViewers (monthSummary l []) = Fin 0" "peakHour (monthSummary l []) = 23"
    using peak by (simp_all add: monthSummary_def Let_def zero_number_def)
  then show ?thesis using s by simp
qed

theorem no_days_summary_witness:
  "(case processViewerData refPlatform headerOnlyGrid ''November 2024'' of Inl e \<Rightarrow> False
    | Inr s \<Rightarrow> days s = [] \<and> totalViewers s = Fin 0 \<and> peakHour s = 23)
   \<and> (case processViewerData refPlatform zeroTotalGrid ''November 2024'' of Inl e \<Rightarrow> False
    | Inr s \<Rightarrow> days s = [] \<and> totalViewers s = Fin 0 \<and> peakHour s = 23)"
proof -
  have "(case processViewerData refPlatform headerOnlyGrid ''November 2024'' of Inl e \<Rightarrow> False
    | Inr s \<Rightarrow> days s = [])"
    and "(case processViewerData refPlatform zeroTotalGrid ''November 2024'' of Inl e \<Rightarrow> False
    | Inr s \<Rightarrow> days s = [])"
    by code_simp+
  then obtain s t where s: "processViewerData refPlatform headerOnlyGrid ''November 2024'' = Inr s" "days s = []"
    and t: "processViewerData refPlatform zeroTotalGrid ''November 2024'' = Inr t" "days t = []"
    by (auto split: sum.splits)
  show ?thesis
    using no_days_summary [OF s] no_days_summary [OF t] s t by simp
qed

text \<open>
  C6. When two data rows of a grid have the same date and the same parsed hour, and no
  later row has that date and hour, the day of that date in the result holds at that
  hour exactly the values the later row computes, for the viewers and for the
  percentage: the later row overwrites the earlier one, nothing is added up.
\<close>

theorem duplicate_hour_overwrite:
  assumes "processViewerData P g l = Inr s"
    and "dataRows g = pre @ r1 # mid @ r2 # post"
    and "rowSlot P (gridColumns g) r1 = Some (d, h)"
    and "rowSlot P (gridColumns g) r2 = Some (d, h)"
    and "\<forall>r\<in>set post. rowSlot P (gridColumns g) r \<noteq> Some (d, h)"
    and "day \<in> set (days s)" and "date day = d"
  shows "arr_get (hourlyViewers day) h = rowHourlyViewers P (gridColumns g) r2
       \<and> arr_get (hourlyPercentages day) h = rowPercent P (gridColumns g) r2"
proof -
  have "day \<in> set (extractDays P (gridColumns g) ((pre @ r1 # mid) @ r2 # post))"
    using assms(1,2,6) by (simp add: processViewerData_days)
  then show ?thesis
    using assms(4,5,7) by (intro last_write_wins [where pre = "pre @ r1 # mid" and post = post])
qed

theorem duplicate_hour_overwrite_witness:
  "rowHourlyViewers refPlatform (gridColumns novemberGrid) (novemberGrid ! 3) = Fin 200
   \<and> rowHourlyViewers refPlatform (gridColumns novemberGrid) (novemberGrid ! 4) = Fin 500
   \<and> (case processViewerData refPlatform novemberGrid ''November 2024'' of Inl e \<Rightarrow> False
      | Inr s \<Rightarrow> (case filter (\<lambda>day. date day = ''01-11-2024'') (days s) of
                     [day] \<Rightarrow> arr_get (hourlyViewers day) 20 = Fin 500
                             \<and> arr_get (hourlyPercentages day) 20 = Fin (1 / 4)
                   | _ \<Rightarrow> False))"
proof -
  let ?c = "gridColumns novemberGrid"
  have rows: "dataRows novemberGrid =
      [novemberGrid ! 2] @ (novemberGrid ! 3) # [] @ (novemberGrid ! 4) # [novemberGrid ! 5]"
    by code_simp
  have slots: "rowSlot refPlatform ?c (novemberGrid ! 3) = Some (''01-11-2024'', 20)"
    "rowSlot refPlatform ?c (novemberGrid ! 4) = Some (''01-11-2024'', 20)"
    "rowSlot refPlatform ?c (novemberGrid ! 5) = Some (''01-11-2024'', 21)"
    by code_simp+
  have later: "\<forall>r\<in>set [novemberGrid ! 5]. rowSlot refPlatform ?c r \<noteq> Some (''01-11-2024'', 20)"
    using slots(3) by simp
  have vals: "rowHourlyViewers refPlatform ?c (novemberGrid ! 3) = Fin 200"
    "rowHourlyViewers refPlatform ?c (novemberGrid ! 4) = Fin 500"
    "rowPercent refPlatform ?c (novemberGrid ! 4) = Fin (1 / 4)"
    by code_simp+
  have "(case processViewerData refPlatform novemberGrid ''November 2024'' of Inl e \<Rightarrow> False
      | Inr s \<Rightarrow> (case filter (\<lambda>day. date day = ''01-11-2024'') (days s) of
                     [day] \<Rightarrow> True | _ \<Rightarrow> False))"
    by code_simp
  then obtain s day where s: "processViewerData refPlatform novemberGrid ''November 2024'' = Inr s"
    and f: "filter (\<lambda>day. date day = ''01-11-2024'') (days s) = [day]"
    by (auto split: sum.splits list.splits)
  have "day \<in> set (filter (\<lambda>day. date day = ''01-11-2024'') (days s))" unfolding f by simp
  then have day: "day \<in> set (days s)" "date day = ''01-11-2024''" by auto
  have "arr_get (hourlyViewers day) 20 = Fin 500 \<and> arr_get (hourlyPercentages day) 20 = Fin (1 / 4)"
    using duplicate_hour_overwrite [OF s rows slots(1,2) later day] vals by simp
  then show ?thesis using vals by (simp add: s f)
qed

section \<open>Multi-period aggregation (claims C3, C9 and C10)\<close>

lemma fold_arr_set_get:
  "distinct is \<Longrightarrow>
   arr_get (fold (\<lambda>i a. arr_set a i (f (arr_get a i))) is a) h =
     (if h \<in> set is then f (arr_get a h) else arr_get a h)"
proof (induction "is" arbitrary: a)
  case Nil
  then show ?case by simp
next
  case (Cons i "is")
  then show ?case by (auto simp: arr_get_set)
qed

lemma pvd_average_get:
  "arr_get (pvd_average n a) h =
     (if 0 < n \<and> h < 24 then mathRound (ndiv (arr_get a h) (of_nat n)) else arr_get a h)"
  using fold_arr_set_get [of "[0..<24]" "\<lambda>v. mathRound (ndiv v (of_nat n))" a h]
  by (simp add: pvd_average_def)

lemma unionDays_two:
  assumes "days m1 = [a]" "days m2 = [b]" "date a \<noteq> date b"
  shows "map_values (unionDays [m1, m2]) = [a, b]"
  using assms by (simp add: unionDays_def map_set_def map_values_def)

text \<open>
  C3. Two input summaries with one day each, with distinct dates and 24 hourly counts
  \<open>a_h\<close> and \<open>b_h\<close>, aggregate to a summary of exactly these two days whose hourly total
  is \<open>a_h + b_h\<close> and whose hourly average is \<open>round((a_h + b_h) / 2)\<close> for every hour, and
  whose totals, maxima, averages, peak hour, peak day and grand total are those that
  the month algorithm (\<open>monthSummary\<close>, from \<open>processViewerData\<close>) computes from scratch
  over the same days.
\<close>

theorem aggregate_two_single_days:
  assumes "days m1 = [a]" and "days m2 = [b]" and "date a \<noteq> date b"
    and "slotsPresent (hourlyViewers a)" and "slotsPresent (hourlyViewers b)"
  shows "\<exists>s. aggregateMonthsData P (Some [m1, m2]) = Inr s
      \<and> set (days s) = {a, b} \<and> length (days s) = 2
      \<and> (\<forall>h<24. arr_get (totalViewersPerHour s) h = arr_get (hourlyViewers a) h + arr_get (hourlyViewers b) h
              \<and> arr_get (averageHourlyViewers s) h =
                  mathRound (ndiv (arr_get (hourlyViewers a) h + arr_get (hourlyViewers b) h) 2))
      \<and> totalViewersPerHour s = totalViewersPerHour (monthSummary l (days s))
      \<and> maxViewersPerHour s = maxViewersPerHour (monthSummary l (days s))
      \<and> averageHourlyViewers s = averageHourlyViewers (monthSummary l (days s))
      \<and> peakHour s = peakHour (monthSummary l (days s))
      \<and> peakDay s = peakDay (monthSummary l (days s))
      \<and> totalViewers s = totalViewers (monthSummary l (days s))"
proof -
  define allDays where "allDays = sortBy (compareDates P) [a, b]"
  define s where "s = \<lparr>monthYear = ''Samenvatting ('' @ timespan [m1, m2] @ '')'',
                     days = allDays,
                     averageHourlyViewers = agg_average (length allDays) (averageAcc (agg_accumulate allDays)),
                     maxViewersPerHour = maxAcc (agg_accumulate allDays),
                     totalViewersPerHour = totalAcc (agg_accumulate allDays),
                     peakDay = agg_peakDay allDays,
                     peakHour = agg_peakHour (totalAcc (agg_accumulate allDays)),
                     totalViewers = fold (\<lambda>day sum. sum + DailyData.totalViewers day) allDays 0\<rparr>"
  have run: "aggregateMonthsData P (Some [m1, m2]) = Inr s"
    using unionDays_two [OF assms(1-3)]
    by (simp add: aggregateMonthsData_def Let_def s_def allDays_def)
  have order: "allDays = [a, b] \<or> allDays = [b, a]"
    unfolding allDays_def by (rule sortBy_two)
  have days: "days s = allDays" by (simp add: s_def)
  have ne: "allDays \<noteq> []" and len: "length allDays = 2" and elems: "set allDays = {a, b}"
    using order by auto
  have tot: "arr_get (totalViewersPerHour s) h = arr_get (hourlyViewers a) h + arr_get (hourlyViewers b) h"
    if "h < 24" for h
    using order that assms(4,5)
    by (auto simp: s_def agg_accumulate_eq pvd_total_get slotsPresent_slotValue add.commute)
  have avg: "arr_get (averageHourlyViewers s) h =
               mathRound (ndiv (arr_get (hourlyViewers a) h + arr_get (hourlyViewers b) h) 2)"
    if "h < 24" for h
    using tot [OF that] that len
    by (simp add: s_def agg_accumulate_eq agg_average_eq pvd_average_get pvd_averageAcc_get)
  have same: "totalViewersPerHour s = totalViewersPerHour (monthSummary l (days s))"
      "maxViewersPerHour s = maxViewersPerHour (monthSummary l (days s))"
      "averageHourlyViewers s = averageHourlyViewers (monthSummary l (days s))"
      "peakHour s = peakHour (monthSummary l (days s))"
      "peakDay s = peakDay (monthSummary l (days s))"
      "totalViewers s = totalViewers (monthSummary l (days s))"
    using ne by (simp_all add: s_def monthSummary_def Let_def agg_accumulate_eq agg_average_eq
        agg_peakHour_eq agg_peakDay_eq)
  show ?thesis
    using run days len elems tot avg same by (intro exI [of _ s]) simp
qed

theorem aggregate_two_single_days_witness:
  "(case aggregateMonthsData refPlatform
           (Some [monthSummary ''November 2024'' [sampleDayA], monthSummary ''December 2024'' [sampleDayB]]) of
      Inl e \<Rightarrow> False
    | Inr s \<Rightarrow> length (days s) = 2
        \<and> arr_get (totalViewersPerHour s) 20 = Fin 400 \<and> arr_get (averageHourlyViewers s) 20 = Fin 200
        \<and> arr_get (totalViewersPerHour s) 21 = Fin 5 \<and> arr_get (averageHourlyViewers s) 21 = Fin 3)"
proof -
  let ?m1 = "monthSummary ''November 2024'' [sampleDayA]"
  let ?m2 = "monthSummary ''December 2024'' [sampleDayB]"
  have d1: "days ?m1 = [sampleDayA]" and d2: "days ?m2 = [sampleDayB]"
    by (simp_all add: monthSummary_def Let_def)
  have dates: "date sampleDayA \<noteq> date sampleDayB"
    by (simp add: sampleDayA_def sampleDayB_def)
  have slots: "slotsPresent (hourlyViewers sampleDayA)" "slotsPresent (hourlyViewers sampleDayB)"
    by code_simp+
  have vals: "arr_get (hourlyViewers sampleDayA) 20 = Fin 300" "arr_get (hourlyViewers sampleDayB) 20 = Fin 100"
      "arr_get (hourlyViewers sampleDayA) 21 = Fin 5" "arr_get (hourlyViewers sampleDayB) 21 = Fin 0"
    by code_simp+
  have rounds: "mathRound (ndiv (Fin 400) 2) = Fin 200" "mathRound (ndiv (Fin 5) 2) = Fin 3"
    by code_simp+
  obtain s where run: "aggregateMonthsData refPlatform (Some [?m1, ?m2]) = Inr s"
    and len: "length (days s) = 2"
    and hours: "\<forall>h<24. arr_get (totalViewersPerHour s) h = arr_get (hourlyViewers sampleDayA) h + arr_get (hourlyViewers sampleDayB) h
              \<and> arr_get (averageHourlyViewers s) h =
                  mathRound (ndiv (arr_get (hourlyViewers sampleDayA) h + arr_get (hourlyViewers sampleDayB) h) 2)"
    using aggregate_two_single_days [OF d1 d2 dates slots, of refPlatform "''x''"] by blast
  have "arr_get (totalViewersPerHour s) 20 = Fin 400 \<and> arr_get (averageHourlyViewers s) 20 = Fin 200"
    using hours [rule_format, of 20] vals rounds by simp
  moreover have "arr_get (totalViewersPerHour s) 21 = Fin 5 \<and> arr_get (averageHourlyViewers s) 21 = Fin 3"
    using hours [rule_format, of 21] vals rounds by simp
  ultimately show ?thesis using len by (simp add: run)
qed

text \<open>
  C10. \<open>aggregateMonthsData\<close> called without a list, or with the empty list, throws the
  error "No data provided for aggregation".
\<close>

theorem aggregate_no_input:
  "aggregateMonthsData P None = Inl (Error ''No data provided for aggregation'')
   \<and> aggregateMonthsData P (Some []) = Inl (Error ''No data provided for aggregation'')"
  by (simp add: aggregateMonthsData_def)

text \<open>
  C9 (amended). For two or more input summaries the label of the result is
  "Samenvatting (<first input's label> - <last input's label>)"; a single input
  summary is returned itself, unchanged.
\<close>

theorem aggregate_label:
  "(2 \<le> length ms \<longrightarrow>
      (\<exists>s. aggregateMonthsData P (Some ms) = Inr s
         \<and> monthYear s = ''Samenvatting ('' @ monthYear (hd ms) @ '' - '' @ monthYear (last ms) @ '')''))
   \<and> aggregateMonthsData P (Some [m]) = Inr m"
proof (intro conjI impI)
  assume two: "2 \<le> length ms"
  then have ne: "ms \<noteq> []" by auto
  have "timespan ms = monthYear (hd ms) @ '' - '' @ monthYear (last ms)"
    using two ne by (simp add: timespan_def Let_def hd_conv_nth last_conv_nth)
  then show "\<exists>s. aggregateMonthsData P (Some ms) = Inr s
         \<and> monthYear s = ''Samenvatting ('' @ monthYear (hd ms) @ '' - '' @ monthYear (last ms) @ '')''"
    using two ne by (cases ms; cases "tl ms") (auto simp: aggregateMonthsData_def Let_def)
next
  show "aggregateMonthsData P (Some [m]) = Inr m"
    by (simp add: aggregateMonthsData_def)
qed

theorem aggregate_label_witness:
  "aggregateMonthsData refPlatform (Some [monthSummary ''Januari 2024'' []]) = Inr (monthSummary ''Januari 2024'' [])
   \<and> (\<exists>s. aggregateMonthsData refPlatform
              (Some [monthSummary ''Januari 2024'' [], monthSummary ''Februari 2024'' [],
                     monthSummary ''Maart 2024'' []]) = Inr s
          \<and> monthYear s = ''Samenvatting (Januari 2024 - Maart 2024)'')"
  using aggregate_label [of "[monthSummary ''Januari 2024'' [], monthSummary ''Februari 2024'' [],
                     monthSummary ''Maart 2024'' []]" refPlatform "monthSummary ''Januari 2024'' []"]
  by (simp add: monthSummary_def Let_def)

text \<open>The claim as stated fails: for two inputs labelled \<open>Januari 2024\<close> and
  \<open>Februari 2024\<close> the label of the result is not \<open>Januari 2024 - Februari 2024\<close>.\<close>

theorem aggregate_label_prefixed:
  "(case aggregateMonthsData refPlatform
           (Some [monthSummary ''Januari 2024'' [], monthSummary ''Februari 2024'' []]) of
      Inl e \<Rightarrow> False
    | Inr s \<Rightarrow> monthYear s = ''Samenvatting (Januari 2024 - Februari 2024)''
        \<and> monthYear s \<noteq> ''Januari 2024 - Februari 2024'')"
  by code_simp

section \<open>End-time back-fill (claim C7)\<close>





lemma stepEnd_startTime: "startTime (stepEnd P p q) = startTime p"
  by (simp add: stepEnd_def slotDefault_def endAtNext_def Let_def split: prod.splits)

lemma finishLast_startTime: "finishLast P l = Inr l' \<Longrightarrow> startTime l' = startTime l"
  by (auto simp: finishLast_def split: if_splits sum.splits)






lemma sortedPrograms_Nil: "sortedPrograms P [] = []"
  by (simp add: sortedPrograms_def assignSequences_def groupSlots_def sortBy_def)








lemma mset_insertBy: "mset (insertBy cmp x xs) = add_mset x (mset xs)"
  by (induction xs) simp_all

lemma mset_sortBy: "mset (sortBy cmp xs) = mset xs"
  by (induction xs) (simp_all add: sortBy_def mset_insertBy)



lemma parsedFields_markMultiple: "parsedFields (markMultiple P index n p) = parsedFields p"
  by (simp add: parsedFields_def markMultiple_def Let_def)

lemma map_update_same:
  assumes "f y = f (ps ! i)"
  shows "map f (ps[i := y]) = map f ps"
proof (cases "i < length ps")
  case True
  then show ?thesis using assms by (simp add: map_update list_update_same_conv)
next
  case False
  then have "length ps \<le> i" by simp
  then have "ps[i := y] = ps" by (rule list_update_beyond)
  then show ?thesis by (simp only:)
qed

lemma markSlot_fields:
  "map parsedFields (fold (\<lambda>(index, i) ps. ps[i := markMultiple P index n (ps ! i)]) xs ps)
     = map parsedFields ps"
proof (induction xs arbitrary: ps)
  case Nil
  then show ?case by simp
next
  case (Cons x xs)
  obtain index i where x: "x = (index, i)" by (cases x)
  show ?case
    by (simp add: x Cons.IH map_update_same parsedFields_markMultiple)
qed

lemma assignSlots_fields:
  "map parsedFields
     (fold (\<lambda>(key, timePrograms) ps.
             if length timePrograms > 1
             then fold (\<lambda>(index, i) ps. ps[i := markMultiple P index (length timePrograms) (ps ! i)])
                    (enumerate 0 timePrograms) ps
             else ps) groups ps)
     = map parsedFields ps"
proof (induction groups arbitrary: ps)
  case Nil
  then show ?case by simp
next
  case (Cons g groups)
  obtain key tp where g: "g = (key, tp)" by (cases g)
  let ?F = "\<lambda>(key, timePrograms) ps.
             if length timePrograms > 1
             then fold (\<lambda>(index, i) ps. ps[i := markMultiple P index (length timePrograms) (ps ! i)])
                    (enumerate 0 timePrograms) ps
             else ps"
  have "map parsedFields (fold ?F (g # groups) ps) = map parsedFields (?F g ps)"
    by (simp only: fold.simps comp_apply Cons.IH)
  also have "\<dots> = map parsedFields ps"
    by (simp add: g markSlot_fields)
  finally show ?case .
qed

lemma assignSequences_fields: "map parsedFields (assignSequences P ps) = map parsedFields ps"
  unfolding assignSequences_def by (rule assignSlots_fields)


lemma sortedPrograms_fields:
  "mset (map parsedFields (sortedPrograms P es)) = mset (map parsedFields es)"
proof -
  have "mset (map parsedFields (sortedPrograms P es)) = image_mset parsedFields (mset (assignSequences P es))"
    by (simp add: sortedPrograms_def mset_sortBy)
  also have "\<dots> = mset (map parsedFields (assignSequences P es))" by simp
  finally show ?thesis by (simp only: assignSequences_fields)
qed


lemma sortedPrograms_length: "length (sortedPrograms P es) = length es"
  using arg_cong [OF sortedPrograms_fields [of P es], of size] by simp



























section \<open>The schedule in local storage\<close>























end
